theory Spec2Isabelle
  imports Main "HOL-Library.Word"
begin

unbundle bit_operations_syntax

section \<open>Data model of \<open>src/lib/eventstream_rpc.ts\<close>\<close>

subsection \<open>Errors\<close>

text \<open>The enum \<open>RpcErrorType\<close>, in the order of the source.\<close>

datatype RpcErrorType =
    SerializationError
  | DeserializationError
  | ProtocolError
  | InternalError
  | ValidationError
  | ClientStateError
  | NetworkError

text \<open>
  \<open>CrtError\<close> belongs to the package \<open>aws-crt\<close>. The module builds one from an error code
  (\<open>new CrtError(eventData.errorCode)\<close>) and from a text
  (\<open>new CrtError("User-initiated disconnect")\<close>); nothing else is read from it.
\<close>

datatype CrtError = CrtErrorCode int | CrtErrorText string

text \<open>The interface \<open>RpcError\<close>; the optional field is an \<open>option\<close>.\<close>

record RpcError =
  type :: RpcErrorType
  description :: string
  internalError :: "CrtError option"

definition createRpcError :: "RpcErrorType \<Rightarrow> string \<Rightarrow> CrtError option \<Rightarrow> RpcError" where
  "createRpcError t d e = \<lparr> type = t, description = d, internalError = e \<rparr>"

text \<open>
  What a synchronous call can throw: an \<open>RpcError\<close> made by \<open>createRpcError\<close>, or an
  error of the transport that nothing wrapped.
\<close>

datatype exn = ThrownRpcError RpcError | ThrownCrtError CrtError

subsection \<open>Messages\<close>

text \<open>
  Modelled from the spec: the declarations \<open>eventstream.MessageType\<close> and
  \<open>eventstream.Message\<close> belong to the package \<open>aws-crt\<close> and are not among the sources.
  The module names three message types (\<open>Connect\<close>, \<open>ConnectAck\<close>,
  \<open>ApplicationMessage\<close>); every other tag is \<open>OtherMessageType\<close>. A message is
  "a message type tag plus a bit-flag field", the flags being optional
  (\<open>message.flags ?? 0\<close>). Flags are integer-valued numbers.
\<close>

datatype MessageType = ApplicationMessage | Connect | ConnectAck | OtherMessageType nat

record Message =
  msg_type :: MessageType
  msg_flags :: "int option"

text \<open>
  The operator \<open>&\<close> of the source works on the 32-bit integers of its operands
  (\<open>ToInt32\<close>). The value of \<open>eventstream.MessageFlags.ConnectionAccepted\<close> is declared in
  \<open>aws-crt\<close>; it is the parameter \<open>accepted\<close> of \<open>isValidConnack\<close> and of everything
  that calls it.
\<close>

definition ToInt32 :: "int \<Rightarrow> 32 word" where
  "ToInt32 n = word_of_int n"

definition isValidConnack :: "int \<Rightarrow> Message \<Rightarrow> bool" where
  "isValidConnack accepted message =
     (if msg_type message \<noteq> ConnectAck then False
      else if ToInt32 (case msg_flags message of None \<Rightarrow> 0 | Some f \<Rightarrow> f) AND ToInt32 accepted = 0
        then False
      else True)"

subsection \<open>States\<close>

text \<open>
  The enums \<open>ClientState\<close> and \<open>OperationState\<close>. Their members \<open>None\<close> and \<open>Closed\<close>
  are renamed where they clash (with \<open>option\<close>, and with each other).
\<close>

datatype ClientState = StateNone | Connecting | Connected | Finished | Closed

datatype OperationState = OpNone | Activated | Ended | OpClosed

text \<open>The position of a client state in the declaration of the enum.\<close>

fun rank :: "ClientState \<Rightarrow> nat" where
  "rank StateNone = 0"
| "rank Connecting = 1"
| "rank Connected = 2"
| "rank Finished = 3"
| "rank Closed = 4"

record RpcClientConfig =
  hostName :: string
  port :: int
  connectTransform :: bool
  connectTimeoutMs :: "int option"

definition DEFAULT_CONNECT_TIMEOUT_MS :: int where
  "DEFAULT_CONNECT_TIMEOUT_MS = 5000"

text \<open>
  An \<open>OperationBase\<close> object. Its stream is the stream of the same index. \<open>janitor\<close> holds
  whether the field is defined. \<open>sendMessageThrows\<close> is not a field of the source: it is the
  answer of the transport stream, should \<open>sendMessage\<close> be called on it now.
\<close>

record OperationBase =
  op_state :: OperationState
  emitEndedOnClose :: bool
  janitor :: bool
  sendMessageThrows :: "CrtError option"

subsection \<open>The run-time around the client\<close>

text \<open>A promise handed to a caller: the first \<open>resolve\<close> or \<open>reject\<close> settles it.\<close>

datatype Promise = Pending | Fulfilled | Rejected RpcError

definition settle :: "nat \<Rightarrow> Promise \<Rightarrow> Promise list \<Rightarrow> Promise list" where
  "settle k v ps = (if k < length ps \<and> ps ! k = Pending then ps[k := v] else ps)"

text \<open>The callbacks given to \<open>setImmediate\<close>.\<close>

datatype Immediate =
    ClientClose
  | EmitDisconnection
  | EmitEnded nat
  | EmitError nat
  | StreamClose nat

text \<open>The two listeners \<open>connect()\<close> puts on the connection's \<open>disconnection\<close> event.\<close>

datatype Listener = OnDisconnectWhileConnecting | OnDisconnect

text \<open>Where the asynchronous body of \<open>connect()\<close> is suspended.\<close>

datatype Body =
    NotStarted
  | AwaitConnectionConnect
  | AwaitConnectTransform
  | AwaitSendProtocolMessage
  | AwaitConnectResponse
  | Returned

text \<open>What the module does to its collaborators and listeners, in order.\<close>

datatype Effect =
    ConnectionConnect
  | ConnectionSendProtocolMessage "Message option"
  | ConnectionNewStream
  | ConnectionClose
  | StreamActivate nat
  | StreamSendTerminate nat
  | StreamClosed nat
  | Disconnection "CrtError option"
  | OperationEnded nat
  | OperationError nat

text \<open>
  The first five fields are the fields of \<open>RpcClient\<close> (the connection handle apart: calls
  on it are recorded in \<open>trace\<close>). The others are the run-time of the one client: the
  listeners on its connection, the connect timer (its delay, while armed), the point where
  the body of \<open>connect()\<close> waits and the promise that body settles, the promises returned by
  \<open>connect()\<close> and by \<open>activate()\<close> (with the operation each activation belongs to), the
  operations constructed on the client, and the queue of \<open>setImmediate\<close>.
\<close>

record world =
  config :: RpcClientConfig
  emitDisconnectOnClose :: bool
  state :: ClientState
  unclosedOperations :: "nat list option"
  disconnectionReason :: "CrtError option"
  listeners :: "Listener list"
  timer :: "int option"
  body :: Body
  connectPromise :: nat
  promises :: "Promise list"
  operations :: "OperationBase list"
  activatePromises :: "Promise list"
  activations :: "nat list"
  immediates :: "Immediate list"
  trace :: "Effect list"

text \<open>
  The fields after the constructor of \<open>RpcClient\<close> has run; \<open>failure\<close> is what
  \<open>new eventstream.ClientConnection\<close> throws, if it does.
\<close>

definition init :: "RpcClientConfig \<Rightarrow> world" where
  "init cfg = \<lparr> config = cfg, emitDisconnectOnClose = False, state = StateNone,
     unclosedOperations = Some [], disconnectionReason = None, listeners = [],
     timer = None, body = NotStarted, connectPromise = 0, promises = [],
     operations = [], activatePromises = [], activations = [], immediates = [],
     trace = [] \<rparr>"

definition RpcClient_new :: "RpcClientConfig \<Rightarrow> CrtError option \<Rightarrow> exn + world" where
  "RpcClient_new cfg failure =
     (case failure of
        Some e \<Rightarrow> Inl (ThrownRpcError
          (createRpcError InternalError ''Failed to create eventstream connection'' (Some e)))
      | None \<Rightarrow> Inr (init cfg))"

definition setImmediate :: "Immediate \<Rightarrow> world \<Rightarrow> world" where
  "setImmediate t w = w\<lparr> immediates := immediates w @ [t] \<rparr>"

definition perform :: "Effect \<Rightarrow> world \<Rightarrow> world" where
  "perform e w = w\<lparr> trace := trace w @ [e] \<rparr>"

definition reject :: "RpcError \<Rightarrow> world \<Rightarrow> world" where
  "reject e w = w\<lparr> promises := settle (connectPromise w) (Rejected e) (promises w) \<rparr>"

definition resolve :: "world \<Rightarrow> world" where
  "resolve w = w\<lparr> promises := settle (connectPromise w) Fulfilled (promises w) \<rparr>"

section \<open>The client\<close>

subsection \<open>The registry of unclosed operations\<close>

definition isConnected :: "world \<Rightarrow> bool" where
  "isConnected w = (state w = Connected)"

text \<open>\<open>Set.add\<close> keeps one copy of an element, and the order of insertion.\<close>

definition set_add :: "nat \<Rightarrow> nat list \<Rightarrow> nat list" where
  "set_add x xs = (if x \<in> set xs then xs else xs @ [x])"

definition registerUnclosedOperation :: "nat \<Rightarrow> world \<Rightarrow> (exn + unit) \<times> world" where
  "registerUnclosedOperation operation w =
     (if \<not> isConnected w
      then (Inl (ThrownRpcError (createRpcError ClientStateError
        ''Operation registration only allowed when the client is connected'' None)), w)
      else case unclosedOperations w of
        None \<Rightarrow> (Inl (ThrownRpcError (createRpcError ClientStateError
          ''Operation registration only allowed when the client is connected'' None)), w)
      | Some ops \<Rightarrow> (Inr (), w\<lparr> unclosedOperations := Some (set_add operation ops) \<rparr>))"

definition removeUnclosedOperation :: "nat \<Rightarrow> world \<Rightarrow> world" where
  "removeUnclosedOperation operation w =
     (case unclosedOperations w of
        None \<Rightarrow> w
      | Some ops \<Rightarrow> w\<lparr> unclosedOperations := Some (removeAll operation ops) \<rparr>)"

text \<open>\<open>failure\<close> is what \<open>connection.newStream()\<close> throws, if it does.\<close>

definition newStream :: "CrtError option \<Rightarrow> world \<Rightarrow> (exn + unit) \<times> world" where
  "newStream failure w =
     (if state w \<noteq> Connected
      then (Inl (ThrownRpcError (createRpcError ClientStateError
        ''New streams may only be created while the client is connected'' None)), w)
      else case failure of
        Some e \<Rightarrow> (Inl (ThrownRpcError
          (createRpcError InternalError ''Failed to create new event stream'' (Some e))), w)
      | None \<Rightarrow> (Inr (), perform ConnectionNewStream w))"

subsection \<open>Operations\<close>

text \<open>
  The constructor of \<open>OperationBase\<close>. The new object is the operation of index
  \<open>length (operations w)\<close>; it exists in the model once it has its stream.
\<close>

definition OperationBase_new :: "CrtError option \<Rightarrow> world \<Rightarrow> (exn + nat) \<times> world" where
  "OperationBase_new failure w =
     (case newStream failure w of
        (Inl e, w1) \<Rightarrow> (Inl e, w1)
      | (Inr u, w1) \<Rightarrow>
          (let this = length (operations w1);
               w2 = w1\<lparr> operations := operations w1 @
                      [\<lparr> op_state = OpNone, emitEndedOnClose = False, janitor = False,
                         sendMessageThrows = None \<rparr>] \<rparr>
           in (case registerUnclosedOperation this w2 of
                 (Inl e, w3) \<Rightarrow> (Inl e, w3)
               | (Inr u, w3) \<Rightarrow> (Inr this, w3))))"

definition stream_sendMessage :: "nat \<Rightarrow> world \<Rightarrow> (exn + unit) \<times> world" where
  "stream_sendMessage this w =
     (case sendMessageThrows (operations w ! this) of
        Some e \<Rightarrow> (Inl (ThrownCrtError e), w)
      | None \<Rightarrow> (Inr (), perform (StreamSendTerminate this) w))"

text \<open>
  \<open>OperationBase.close\<close>. Modelled from the spec: the statement after
  \<open>this.emitEndedOnClose = false\<close> is elided in the source (\<open>??\<close>), and so is the
  payload of the \<open>error\<close> notification; by the spec the statement schedules the delivery
  of the \<open>ended\<close> notification on the next tick. An index that names no operation is no
  object to call \<open>close\<close> on: nothing happens.
\<close>

definition OperationBase_close :: "nat \<Rightarrow> world \<Rightarrow> (exn + unit) \<times> world" where
  "OperationBase_close this w =
     (if length (operations w) \<le> this then (Inr (), w)
      else if op_state (operations w ! this) = OpClosed then (Inr (), w)
      else
        let w1 = (if emitEndedOnClose (operations w ! this)
                  then setImmediate (EmitEnded this)
                         (w\<lparr> operations := (operations w)
                            [this := (operations w ! this)\<lparr> emitEndedOnClose := False \<rparr>] \<rparr>)
                  else w);
            shouldTerminateStream = (op_state (operations w1 ! this) = Activated);
            w2 = w1\<lparr> operations := (operations w1)
                   [this := (operations w1 ! this)\<lparr> op_state := OpClosed, janitor := False \<rparr>] \<rparr>;
            w3 = removeUnclosedOperation this w2;
            w4 = (if shouldTerminateStream
                  then (case stream_sendMessage this w3 of
                          (Inl e, w') \<Rightarrow> setImmediate (EmitError this) w'
                        | (Inr u, w') \<Rightarrow> w')
                  else w3)
        in (Inr (), setImmediate (StreamClose this) w4))"

text \<open>The \<open>forEach\<close> of \<open>RpcClient.close\<close>: an exception ends the iteration.\<close>

fun closeEach :: "nat list \<Rightarrow> world \<Rightarrow> (exn + unit) \<times> world" where
  "closeEach [] w = (Inr (), w)"
| "closeEach (operation # rest) w =
     (case OperationBase_close operation w of
        (Inl e, w') \<Rightarrow> (Inl e, w')
      | (Inr u, w') \<Rightarrow> closeEach rest w')"

subsection \<open>\<open>RpcClient.close\<close>\<close>

definition RpcClient_close :: "world \<Rightarrow> (exn + unit) \<times> world" where
  "RpcClient_close w =
     (if state w = Closed then (Inr (), w)
      else
        let w1 = (if emitDisconnectOnClose w
                  then setImmediate EmitDisconnection
                         (w\<lparr> emitDisconnectOnClose := False,
                             disconnectionReason :=
                               (case disconnectionReason w of
                                  None \<Rightarrow> Some (CrtErrorText ''User-initiated disconnect'')
                                | Some r \<Rightarrow> Some r) \<rparr>)
                  else w);
            w2 = w1\<lparr> state := Closed \<rparr>
        in (case unclosedOperations w2 of
              None \<Rightarrow> (Inr (), perform ConnectionClose w2)
            | Some unclosed \<Rightarrow>
                (case closeEach unclosed (w2\<lparr> unclosedOperations := None \<rparr>) of
                   (Inl e, w3) \<Rightarrow> (Inl e, w3)
                 | (Inr u, w3) \<Rightarrow> (Inr (), perform ConnectionClose w3))))"

subsection \<open>\<open>RpcClient.connect\<close>\<close>

text \<open>
  The executor of the promise, up to its first \<open>await\<close>. The timer, the listener and the
  body are those of the one call that finds the state \<open>None\<close>.
\<close>

definition RpcClient_connect :: "world \<Rightarrow> world" where
  "RpcClient_connect w =
     (let k = length (promises w);
          w0 = w\<lparr> promises := promises w @ [Pending] \<rparr>
      in if state w0 \<noteq> StateNone
         then w0\<lparr> promises := settle k (Rejected (createRpcError ClientStateError
                ''RpcClient.connect() can only be called once'' None)) (promises w0) \<rparr>
         else perform ConnectionConnect
                (w0\<lparr> connectPromise := k,
                     timer := Some (case connectTimeoutMs (config w0) of
                                      None \<Rightarrow> DEFAULT_CONNECT_TIMEOUT_MS
                                    | Some t \<Rightarrow> t),
                     listeners := listeners w0 @ [OnDisconnectWhileConnecting],
                     state := Connecting,
                     body := AwaitConnectionConnect \<rparr>))"

text \<open>The callback of \<open>setTimeout\<close>.\<close>

definition onTimeout :: "world \<Rightarrow> world" where
  "onTimeout w =
     (if state w = Connecting
      then setImmediate ClientClose
             (reject (createRpcError NetworkError ''RpcClient.connect() timed out'' None)
                (w\<lparr> state := Finished \<rparr>))
      else w)"

text \<open>The two listeners; \<open>errorCode\<close> is the field of the event.\<close>

fun invoke :: "int \<Rightarrow> Listener \<Rightarrow> world \<Rightarrow> world" where
  "invoke errorCode OnDisconnectWhileConnecting w =
     (if state w = Connecting
      then setImmediate ClientClose
             (reject (createRpcError NetworkError
                        ''RpcClient.connect() failed - connection closed'' None)
                (w\<lparr> state := Finished \<rparr>))
      else w)"
| "invoke errorCode OnDisconnect w =
     setImmediate ClientClose
       (if errorCode \<noteq> 0 then w\<lparr> disconnectionReason := Some (CrtErrorCode errorCode) \<rparr>
        else w)"

text \<open>The \<open>catch\<close> block of the body.\<close>

definition onCatch :: "CrtError \<Rightarrow> world \<Rightarrow> world" where
  "onCatch err w =
     setImmediate ClientClose
       (reject (createRpcError InternalError
                  ''Failed to establish eventstream RPC connection'' (Some err))
          (w\<lparr> state := Finished, body := Returned \<rparr>))"

text \<open>The body after the \<open>try\<close> statement; \<open>connack\<close> is \<open>response.message\<close>.\<close>

definition afterTry :: "int \<Rightarrow> Message option \<Rightarrow> world \<Rightarrow> world" where
  "afterTry accepted connack w =
     (let w0 = w\<lparr> body := Returned \<rparr>
      in if state w0 \<noteq> Connecting then w0
         else if (case connack of None \<Rightarrow> True | Some m \<Rightarrow> \<not> isValidConnack accepted m)
         then setImmediate ClientClose
                (reject (createRpcError ProtocolError
                           ''Failed to establish eventstream RPC connection - invalid connack'' None)
                   (w0\<lparr> state := Finished \<rparr>))
         else resolve
                (w0\<lparr> listeners := remove1 OnDisconnectWhileConnecting (listeners w0) @ [OnDisconnect],
                     emitDisconnectOnClose := True,
                     state := Connected \<rparr>))"

text \<open>
  The pending \<open>await\<close> of the body is resolved with \<open>value\<close>: the transformed connect
  message after \<open>connectTransform\<close>, the message of the response after
  \<open>connectResponse\<close>.
\<close>

definition awaitResolved :: "int \<Rightarrow> Message option \<Rightarrow> world \<Rightarrow> world" where
  "awaitResolved accepted v w =
     (case body w of
        NotStarted \<Rightarrow> w
      | AwaitConnectionConnect \<Rightarrow>
          if connectTransform (config w) then w\<lparr> body := AwaitConnectTransform \<rparr>
          else perform (ConnectionSendProtocolMessage
                          (Some \<lparr> msg_type = Connect, msg_flags = None \<rparr>))
                 (w\<lparr> body := AwaitSendProtocolMessage \<rparr>)
      | AwaitConnectTransform \<Rightarrow>
          perform (ConnectionSendProtocolMessage v) (w\<lparr> body := AwaitSendProtocolMessage \<rparr>)
      | AwaitSendProtocolMessage \<Rightarrow> w\<lparr> body := AwaitConnectResponse \<rparr>
      | AwaitConnectResponse \<Rightarrow> afterTry accepted v w
      | Returned \<Rightarrow> w)"

text \<open>The pending \<open>await\<close> of the body throws \<open>err\<close>.\<close>

definition awaitThrew :: "CrtError \<Rightarrow> world \<Rightarrow> world" where
  "awaitThrew err w =
     (case body w of
        NotStarted \<Rightarrow> w
      | Returned \<Rightarrow> w
      | _ \<Rightarrow> onCatch err w)"

subsection \<open>\<open>OperationBase.activate\<close>\<close>

text \<open>
  The executor of the promise, up to its \<open>await\<close>. (The source writes \<open>await\<close> in an
  executor that is not declared \<open>async\<close>; the model reads it as the asynchronous body it is
  meant to be, like the one of \<open>connect()\<close>.) The promise is the next one of
  \<open>activatePromises\<close>, and \<open>activations\<close> keeps the operation it belongs to.
\<close>

definition OperationBase_activate :: "nat \<Rightarrow> world \<Rightarrow> world" where
  "OperationBase_activate this w =
     (if length (operations w) \<le> this then w
      else
        let k = length (activatePromises w);
            w0 = w\<lparr> activatePromises := activatePromises w @ [Pending],
                    activations := activations w @ [this] \<rparr>
        in if op_state (operations w0 ! this) \<noteq> OpNone
           then w0\<lparr> activatePromises := settle k (Rejected (createRpcError ClientStateError
                  ''Eventstream operations may only have activate() invoked once'' None))
                  (activatePromises w0) \<rparr>
           else perform (StreamActivate this)
                  (w0\<lparr> operations := (operations w0)
                     [this := (operations w0 ! this)\<lparr> janitor := True \<rparr>] \<rparr>))"

text \<open>
  The body of the activation with promise \<open>k\<close> goes on after \<open>await activatePromise\<close>:
  the activation succeeded, or it threw \<open>err\<close>. A body waits exactly while its promise is
  pending. Modelled from the spec: the statement after \<open>reject\<close> in the \<open>catch\<close> block is
  elided in the source (\<open>??\<close>); by the spec the operation is left as it is and "must still
  be closed by the caller".
\<close>

definition activateResolved :: "nat \<Rightarrow> world \<Rightarrow> world" where
  "activateResolved k w =
     (if k < length (activatePromises w) \<and> k < length (activations w)
         \<and> activatePromises w ! k = Pending
      then
        let this = activations w ! k
        in w\<lparr> operations := (operations w)
                [this := (operations w ! this)\<lparr> emitEndedOnClose := True \<rparr>],
              activatePromises := settle k Fulfilled (activatePromises w) \<rparr>
      else w)"

definition activateThrew :: "nat \<Rightarrow> CrtError \<Rightarrow> world \<Rightarrow> world" where
  "activateThrew k err w =
     (if k < length (activatePromises w) \<and> k < length (activations w)
         \<and> activatePromises w ! k = Pending
      then w\<lparr> activatePromises :=
                settle k (Rejected (createRpcError InternalError [] (Some err)))
                  (activatePromises w) \<rparr>
      else w)"

section \<open>The event loop\<close>

text \<open>The callbacks of \<open>setImmediate\<close>, run.\<close>

fun callback :: "Immediate \<Rightarrow> world \<Rightarrow> world" where
  "callback ClientClose w = snd (RpcClient_close w)"
| "callback EmitDisconnection w = perform (Disconnection (disconnectionReason w)) w"
| "callback (EmitEnded this) w = perform (OperationEnded this) w"
| "callback (EmitError this) w = perform (OperationError this) w"
| "callback (StreamClose this) w = perform (StreamClosed this) w"

definition runImmediate :: "world \<Rightarrow> world" where
  "runImmediate w =
     (case immediates w of
        [] \<Rightarrow> w
      | t # ts \<Rightarrow> callback t (w\<lparr> immediates := ts \<rparr>))"

definition timerFires :: "world \<Rightarrow> world" where
  "timerFires w = (case timer w of None \<Rightarrow> w | Some d \<Rightarrow> onTimeout (w\<lparr> timer := None \<rparr>))"

text \<open>The connection emits \<open>disconnection\<close>: its listeners run in the order they were added.\<close>

definition disconnected :: "int \<Rightarrow> world \<Rightarrow> world" where
  "disconnected errorCode w = fold (invoke errorCode) (listeners w) w"

text \<open>
  What can happen to a client between two turns of the event loop: a call by the user, a
  timer, an event or an answer of the transport, a callback of \<open>setImmediate\<close>. Each runs
  to completion. An event that cannot happen in a world (a timer that is not armed, an
  answer nothing waits for, an operation that does not exist) leaves it as it is.
\<close>

datatype event =
    CallConnect
  | TimerFires
  | ConnectionDisconnected int
  | AwaitResolves "Message option"
  | AwaitThrows CrtError
  | CallClose
  | RunImmediate
  | NewOperation "CrtError option"
  | CallOperationClose nat
  | StreamBreaks nat "CrtError option"
  | CallActivate nat
  | ActivateResolves nat
  | ActivateThrows nat CrtError

fun step :: "int \<Rightarrow> world \<Rightarrow> event \<Rightarrow> world" where
  "step accepted w CallConnect = RpcClient_connect w"
| "step accepted w TimerFires = timerFires w"
| "step accepted w (ConnectionDisconnected errorCode) = disconnected errorCode w"
| "step accepted w (AwaitResolves v) = awaitResolved accepted v w"
| "step accepted w (AwaitThrows err) = awaitThrew err w"
| "step accepted w CallClose = snd (RpcClient_close w)"
| "step accepted w RunImmediate = runImmediate w"
| "step accepted w (NewOperation failure) = snd (OperationBase_new failure w)"
| "step accepted w (CallOperationClose this) = snd (OperationBase_close this w)"
| "step accepted w (StreamBreaks this failure) =
     (if this < length (operations w)
      then w\<lparr> operations := (operations w)
             [this := (operations w ! this)\<lparr> sendMessageThrows := failure \<rparr>] \<rparr>
      else w)"
| "step accepted w (CallActivate this) = OperationBase_activate this w"
| "step accepted w (ActivateResolves k) = activateResolved k w"
| "step accepted w (ActivateThrows k err) = activateThrew k err w"

definition run :: "int \<Rightarrow> RpcClientConfig \<Rightarrow> event list \<Rightarrow> world" where
  "run accepted cfg evs = foldl (step accepted) (init cfg) evs"

section \<open>Observations\<close>

text \<open>
  The \<open>disconnection\<close> notifications delivered so far, and whether a promise of
  \<open>connect()\<close> was fulfilled.
\<close>

fun isDisconnection :: "Effect \<Rightarrow> bool" where
  "isDisconnection (Disconnection reason) = True"
| "isDisconnection e = False"

abbreviation disconnections :: "world \<Rightarrow> nat" where
  "disconnections w \<equiv> length (filter isDisconnection (trace w))"

definition connectSucceeded :: "world \<Rightarrow> bool" where
  "connectSucceeded w = (Fulfilled \<in> set (promises w))"

text \<open>
  The notifications that were delivered, are queued, or will be scheduled by the next
  \<open>close()\<close>; and the delay the connect timer is armed with.
\<close>

definition owed :: "world \<Rightarrow> nat" where
  "owed w = (if emitDisconnectOnClose w then 1 else 0)
     + count_list (immediates w) EmitDisconnection + disconnections w"

definition armed :: "world \<Rightarrow> int option" where
  "armed w = Some (case connectTimeoutMs (config w) of
                     None \<Rightarrow> DEFAULT_CONNECT_TIMEOUT_MS | Some t \<Rightarrow> t)"

text \<open>
  The world of \<open>RpcClient.close\<close> at the moment its \<open>forEach\<close> starts: the notification
  is scheduled, the state is \<open>Closed\<close>, the registry is detached.
\<close>

definition beforeCascade :: "world \<Rightarrow> world" where
  "beforeCascade w =
     (if emitDisconnectOnClose w
      then setImmediate EmitDisconnection
             (w\<lparr> emitDisconnectOnClose := False,
                 disconnectionReason :=
                   (case disconnectionReason w of
                      None \<Rightarrow> Some (CrtErrorText ''User-initiated disconnect'')
                    | Some r \<Rightarrow> Some r) \<rparr>)
      else w)\<lparr> state := Closed, unclosedOperations := None \<rparr>"

text \<open>
  The event loop runs the callbacks of \<open>setImmediate\<close> until none is left, with no other
  event in between.
\<close>

function drain :: "world \<Rightarrow> world" where
  "drain w = (if immediates w = [] then w else drain (runImmediate w))"
  by pat_completeness auto

subsection \<open>Invariants of the reachable worlds\<close>

text \<open>
  While the state is \<open>None\<close> nothing has happened yet. While it is \<open>Connecting\<close> the
  promise of the running \<open>connect()\<close> is pending, the timer is armed and no notification
  is owed. No more notifications are owed than connects succeeded. The registry holds
  each operation once, and only operations that exist and are not closed.
\<close>

definition pristine :: "world \<Rightarrow> bool" where
  "pristine w \<longleftrightarrow>
     (state w = StateNone \<longrightarrow>
        timer w = None \<and> body w = NotStarted \<and> listeners w = [] \<and> operations w = []
        \<and> immediates w = [] \<and> promises w = [] \<and> activatePromises w = []
        \<and> \<not> emitDisconnectOnClose w \<and> disconnections w = 0)"

definition connecting_inv :: "world \<Rightarrow> bool" where
  "connecting_inv w \<longleftrightarrow>
     (state w = Connecting \<longrightarrow>
        connectPromise w < length (promises w) \<and> promises w ! connectPromise w = Pending
        \<and> timer w = armed w \<and> owed w = 0 \<and> \<not> connectSucceeded w)"

definition owed_inv :: "world \<Rightarrow> bool" where
  "owed_inv w \<longleftrightarrow> owed w \<le> (if connectSucceeded w then 1 else 0)"

definition registry_inv :: "world \<Rightarrow> bool" where
  "registry_inv w \<longleftrightarrow>
     (case unclosedOperations w of
        None \<Rightarrow> True
      | Some xs \<Rightarrow> distinct xs
          \<and> (\<forall>i \<in> set xs. i < length (operations w) \<and> op_state (operations w ! i) \<noteq> OpClosed))"

section \<open>Example worlds\<close>

text \<open>
  A configuration without transform and timeout, an acknowledgement that is accepted when
  the flag \<open>ConnectionAccepted\<close> is 1, and the events of a handshake that succeeds.
\<close>

definition exampleConfig :: RpcClientConfig where
  "exampleConfig = \<lparr> hostName = ''localhost'', port = 8033, connectTransform = False,
     connectTimeoutMs = None \<rparr>"

definition exampleConnack :: Message where
  "exampleConnack = \<lparr> msg_type = ConnectAck, msg_flags = Some 1 \<rparr>"

definition handshake :: "event list" where
  "handshake = [CallConnect, AwaitResolves None, AwaitResolves None,
     AwaitResolves (Some exampleConnack)]"

text \<open>An operation in state \<open>Activated\<close> whose stream refuses every message.\<close>

definition activatedOperation :: world where
  "activatedOperation = (run 1 exampleConfig (handshake @ [NewOperation None]))
     \<lparr> operations := [\<lparr> op_state = Activated, emitEndedOnClose = True, janitor = True,
          sendMessageThrows = Some (CrtErrorCode 3) \<rparr>] \<rparr>"

text \<open>Two operations on a connected client, and a handshake that waits for its answer.\<close>

definition twoOperations :: "event list" where
  "twoOperations = handshake @ [NewOperation None, NewOperation None]"

definition awaitingConnack :: "event list" where
  "awaitingConnack = [CallConnect, AwaitResolves None, AwaitResolves None]"

section \<open>Properties\<close>

lemmas op_defs = OperationBase_close_def Let_def setImmediate_def perform_def
  removeUnclosedOperation_def stream_sendMessage_def

subsection \<open>Construction of an operation\<close>

text \<open>
  Claim C10. The constructor of an operation asks for its stream before it registers the
  operation. Whenever it throws, the registry of unclosed operations is the one before the
  call: with a client that is not connected it throws the \<open>ClientStateError\<close> of
  \<open>newStream()\<close> and changes nothing; when the transport refuses the stream it throws an
  \<open>InternalError\<close> and changes nothing. When it returns, the stream was allocated and the
  new operation is in the registry.
\<close>

theorem construction_leaves_registry:
  "(\<forall>e. fst (OperationBase_new failure w) = Inl e \<longrightarrow>
       unclosedOperations (snd (OperationBase_new failure w)) = unclosedOperations w)
   \<and> (state w \<noteq> Connected \<longrightarrow>
       OperationBase_new failure w =
         (Inl (ThrownRpcError (createRpcError ClientStateError
            ''New streams may only be created while the client is connected'' None)), w))
   \<and> (state w = Connected \<longrightarrow> (\<forall>c. failure = Some c \<longrightarrow>
       OperationBase_new failure w =
         (Inl (ThrownRpcError (createRpcError InternalError
            ''Failed to create new event stream'' (Some c))), w)))
   \<and> (state w = Connected \<and> failure = None \<longrightarrow> (\<forall>ops. unclosedOperations w = Some ops \<longrightarrow>
       fst (OperationBase_new failure w) = Inr (length (operations w))
       \<and> unclosedOperations (snd (OperationBase_new failure w))
           = Some (set_add (length (operations w)) ops)
       \<and> trace (snd (OperationBase_new failure w)) = trace w @ [ConnectionNewStream]))"
  by (auto simp add: OperationBase_new_def newStream_def registerUnclosedOperation_def
      isConnected_def perform_def Let_def split: option.splits prod.splits if_splits)

theorem construction_leaves_registry_witness:
  "fst (OperationBase_new None (init exampleConfig)) = Inl (ThrownRpcError (createRpcError ClientStateError
            ''New streams may only be created while the client is connected'' None))
   \<and> unclosedOperations (snd (OperationBase_new None (init exampleConfig))) = Some []
   \<and> state (run 1 exampleConfig handshake) = Connected
   \<and> unclosedOperations (run 1 exampleConfig handshake) = Some []
   \<and> OperationBase_new (Some (CrtErrorCode 7)) (run 1 exampleConfig handshake) =
         (Inl (ThrownRpcError (createRpcError InternalError
            ''Failed to create new event stream'' (Some (CrtErrorCode 7)))),
          run 1 exampleConfig handshake)
   \<and> unclosedOperations (snd (OperationBase_new None (run 1 exampleConfig handshake))) = Some [0]"
proof -
  have h0: "state (init exampleConfig) \<noteq> Connected"
    by (simp add: init_def)
  have r0: "unclosedOperations (init exampleConfig) = Some []"
    by (simp add: init_def)
  have h1: "state (run 1 exampleConfig handshake) = Connected"
    by code_simp
  have r1: "unclosedOperations (run 1 exampleConfig handshake) = Some []"
    by code_simp
  have o1: "operations (run 1 exampleConfig handshake) = []"
    by code_simp
  show ?thesis
    using h0 r0 h1 r1 o1
      construction_leaves_registry [of None "init exampleConfig"]
      construction_leaves_registry [of "Some (CrtErrorCode 7)" "run 1 exampleConfig handshake"]
      construction_leaves_registry [of None "run 1 exampleConfig handshake"]
    by (simp add: set_add_def)
qed

subsection \<open>\<open>OperationBase.close\<close>\<close>

lemma OperationBase_close_returns: "fst (OperationBase_close this w) = Inr ()"
  by (simp add: op_defs split: prod.splits option.splits)

lemma OperationBase_close_closed:
  "this < length (operations w) \<Longrightarrow> op_state (operations w ! this) = OpClosed \<Longrightarrow>
     OperationBase_close this w = (Inr (), w)"
  by (simp add: OperationBase_close_def)

lemma OperationBase_close_live:
  assumes "this < length (operations w)" and "op_state (operations w ! this) \<noteq> OpClosed"
  shows "immediates (snd (OperationBase_close this w)) =
          immediates w
          @ (if emitEndedOnClose (operations w ! this) then [EmitEnded this] else [])
          @ (if op_state (operations w ! this) = Activated
                \<and> sendMessageThrows (operations w ! this) \<noteq> None
             then [EmitError this] else [])
          @ [StreamClose this]"
    and "trace (snd (OperationBase_close this w)) =
          trace w
          @ (if op_state (operations w ! this) = Activated
                \<and> sendMessageThrows (operations w ! this) = None
             then [StreamSendTerminate this] else [])"
    and "op_state (operations (snd (OperationBase_close this w)) ! this) = OpClosed"
  using assms
  by (cases "sendMessageThrows (operations w ! this)";
      cases "unclosedOperations w"; simp add: op_defs)+

text \<open>
  Claim C8. \<open>OperationBase.close\<close> never throws. On an operation that is already closed it
  changes nothing. On any other operation it schedules the close of the stream as the last
  callback, whatever happened before; where the operation was \<open>Activated\<close> and
  \<open>sendMessage\<close> throws, nothing is sent or emitted during the call, and the \<open>error\<close>
  notification is scheduled as a callback of \<open>setImmediate\<close>.
\<close>

theorem operation_close_never_throws:
  "fst (OperationBase_close this w) = Inr ()
   \<and> (this < length (operations w) \<and> op_state (operations w ! this) = OpClosed \<longrightarrow>
        OperationBase_close this w = (Inr (), w))
   \<and> (this < length (operations w) \<and> op_state (operations w ! this) \<noteq> OpClosed \<longrightarrow>
        immediates (snd (OperationBase_close this w)) =
          immediates w
          @ (if emitEndedOnClose (operations w ! this) then [EmitEnded this] else [])
          @ (if op_state (operations w ! this) = Activated
                \<and> sendMessageThrows (operations w ! this) \<noteq> None
             then [EmitError this] else [])
          @ [StreamClose this]
        \<and> trace (snd (OperationBase_close this w)) =
          trace w
          @ (if op_state (operations w ! this) = Activated
                \<and> sendMessageThrows (operations w ! this) = None
             then [StreamSendTerminate this] else [])
        \<and> op_state (operations (snd (OperationBase_close this w)) ! this) = OpClosed)"
  using OperationBase_close_returns [of this w] OperationBase_close_closed [of this w]
    OperationBase_close_live [of this w]
  by blast


theorem operation_close_never_throws_witness:
  "0 < length (operations activatedOperation)
   \<and> op_state (operations activatedOperation ! 0) \<noteq> OpClosed
   \<and> fst (OperationBase_close 0 activatedOperation) = Inr ()
   \<and> immediates (snd (OperationBase_close 0 activatedOperation)) =
        [EmitEnded 0, EmitError 0, StreamClose 0]
   \<and> trace (snd (OperationBase_close 0 activatedOperation)) = trace activatedOperation
   \<and> op_state (operations (snd (OperationBase_close 0 activatedOperation)) ! 0) = OpClosed
   \<and> OperationBase_close 0 (snd (OperationBase_close 0 activatedOperation)) =
        (Inr (), snd (OperationBase_close 0 activatedOperation))"
proof -
  have ops: "operations activatedOperation = [\<lparr> op_state = Activated, emitEndedOnClose = True,
      janitor = True, sendMessageThrows = Some (CrtErrorCode 3) \<rparr>]"
    by (simp add: activatedOperation_def)
  have ims: "immediates activatedOperation = []"
    by code_simp
  have len: "0 < length (operations (snd (OperationBase_close 0 activatedOperation)))"
    by code_simp
  show ?thesis
    using ops ims len operation_close_never_throws [of 0 activatedOperation]
      operation_close_never_throws [of 0 "snd (OperationBase_close 0 activatedOperation)"]
    by simp
qed

subsection \<open>What \<open>close\<close> leaves alone\<close>

lemma OperationBase_close_frame [simp]:
  "state (snd (OperationBase_close this w)) = state w"
  "emitDisconnectOnClose (snd (OperationBase_close this w)) = emitDisconnectOnClose w"
  "disconnectionReason (snd (OperationBase_close this w)) = disconnectionReason w"
  "config (snd (OperationBase_close this w)) = config w"
  "listeners (snd (OperationBase_close this w)) = listeners w"
  "timer (snd (OperationBase_close this w)) = timer w"
  "body (snd (OperationBase_close this w)) = body w"
  "connectPromise (snd (OperationBase_close this w)) = connectPromise w"
  "promises (snd (OperationBase_close this w)) = promises w"
  "activatePromises (snd (OperationBase_close this w)) = activatePromises w"
  "activations (snd (OperationBase_close this w)) = activations w"
  "length (operations (snd (OperationBase_close this w))) = length (operations w)"
  by (simp_all add: op_defs split: prod.splits option.splits)

lemma OperationBase_close_queue [simp]:
  "count_list (immediates (snd (OperationBase_close this w))) EmitDisconnection
     = count_list (immediates w) EmitDisconnection"
  "ClientClose \<in> set (immediates (snd (OperationBase_close this w)))
     \<longleftrightarrow> ClientClose \<in> set (immediates w)"
  "filter isDisconnection (trace (snd (OperationBase_close this w)))
     = filter isDisconnection (trace w)"
  "unclosedOperations w = None \<Longrightarrow> unclosedOperations (snd (OperationBase_close this w)) = None"
  by (simp_all add: op_defs split: prod.splits option.splits)

lemma closeEach_returns: "fst (closeEach xs w) = Inr ()"
proof (induction xs arbitrary: w)
  case Nil
  show ?case by simp
next
  case (Cons x xs)
  have "fst (OperationBase_close x w) = Inr ()" by (rule OperationBase_close_returns)
  then obtain w' where "OperationBase_close x w = (Inr (), w')"
    by (cases "OperationBase_close x w") auto
  then show ?case using Cons.IH by simp
qed

lemma closeEach_Cons:
  "closeEach (x # xs) w = closeEach xs (snd (OperationBase_close x w))"
proof -
  have "fst (OperationBase_close x w) = Inr ()" by (rule OperationBase_close_returns)
  then obtain w' where "OperationBase_close x w = (Inr (), w')"
    by (cases "OperationBase_close x w") auto
  then show ?thesis by simp
qed

lemma closeEach_frame [simp]:
  "state (snd (closeEach xs w)) = state w"
  "emitDisconnectOnClose (snd (closeEach xs w)) = emitDisconnectOnClose w"
  "disconnectionReason (snd (closeEach xs w)) = disconnectionReason w"
  "config (snd (closeEach xs w)) = config w"
  "listeners (snd (closeEach xs w)) = listeners w"
  "timer (snd (closeEach xs w)) = timer w"
  "body (snd (closeEach xs w)) = body w"
  "connectPromise (snd (closeEach xs w)) = connectPromise w"
  "promises (snd (closeEach xs w)) = promises w"
  "activatePromises (snd (closeEach xs w)) = activatePromises w"
  "activations (snd (closeEach xs w)) = activations w"
  "length (operations (snd (closeEach xs w))) = length (operations w)"
  "count_list (immediates (snd (closeEach xs w))) EmitDisconnection
     = count_list (immediates w) EmitDisconnection"
  "ClientClose \<in> set (immediates (snd (closeEach xs w)))
     \<longleftrightarrow> ClientClose \<in> set (immediates w)"
  "filter isDisconnection (trace (snd (closeEach xs w))) = filter isDisconnection (trace w)"
  by (induction xs arbitrary: w; simp add: closeEach_Cons del: closeEach.simps(2))+

lemma closeEach_registry [simp]:
  "unclosedOperations w = None \<Longrightarrow> unclosedOperations (snd (closeEach xs w)) = None"
  by (induction xs arbitrary: w) (simp_all add: closeEach_Cons del: closeEach.simps(2))

lemma case_closeEach [simp]:
  "(case closeEach xs w of (Inl e, w3) \<Rightarrow> f e w3 | (Inr u, w3) \<Rightarrow> g u w3)
     = g () (snd (closeEach xs w))"
  using closeEach_returns [of xs w] by (cases "closeEach xs w") auto

lemmas close_defs = RpcClient_close_def Let_def setImmediate_def perform_def

lemma RpcClient_close_returns: "fst (RpcClient_close w) = Inr ()"
  by (simp add: close_defs split: option.splits)

lemma RpcClient_close_Closed: "state w = Closed \<Longrightarrow> RpcClient_close w = (Inr (), w)"
  by (simp add: RpcClient_close_def)

lemma RpcClient_close_frame [simp]:
  "state (snd (RpcClient_close w)) = Closed"
  "config (snd (RpcClient_close w)) = config w"
  "listeners (snd (RpcClient_close w)) = listeners w"
  "timer (snd (RpcClient_close w)) = timer w"
  "body (snd (RpcClient_close w)) = body w"
  "connectPromise (snd (RpcClient_close w)) = connectPromise w"
  "promises (snd (RpcClient_close w)) = promises w"
  "activatePromises (snd (RpcClient_close w)) = activatePromises w"
  "activations (snd (RpcClient_close w)) = activations w"
  "length (operations (snd (RpcClient_close w))) = length (operations w)"
  "ClientClose \<in> set (immediates (snd (RpcClient_close w)))
     \<longleftrightarrow> ClientClose \<in> set (immediates w)"
  by (simp_all add: close_defs split: option.splits)

lemma RpcClient_close_owed [simp]: "owed (snd (RpcClient_close w)) = owed w"
  by (simp add: close_defs owed_def split: option.splits)

lemma RpcClient_close_succeeded [simp]:
  "connectSucceeded (snd (RpcClient_close w)) = connectSucceeded w"
  by (simp add: connectSucceeded_def)


lemma fold_invoke:
  assumes "P w" and "\<And>l v. P v \<Longrightarrow> P (invoke c l v)"
  shows "P (disconnected c w)"
proof -
  have "P (fold (invoke c) ls w)" for ls
    using assms(1)
  proof (induction ls arbitrary: w)
    case Nil
    then show ?case by simp
  next
    case (Cons l ls)
    then show ?case using assms(2) by simp
  qed
  then show ?thesis by (simp add: disconnected_def)
qed

lemma invoke_frame [simp]:
  "emitDisconnectOnClose (invoke c l w) = emitDisconnectOnClose w"
  "config (invoke c l w) = config w"
  "listeners (invoke c l w) = listeners w"
  "timer (invoke c l w) = timer w"
  "body (invoke c l w) = body w"
  "connectPromise (invoke c l w) = connectPromise w"
  "length (promises (invoke c l w)) = length (promises w)"
  "operations (invoke c l w) = operations w"
  "unclosedOperations (invoke c l w) = unclosedOperations w"
  "activatePromises (invoke c l w) = activatePromises w"
  "activations (invoke c l w) = activations w"
  "trace (invoke c l w) = trace w"
  "count_list (immediates (invoke c l w)) EmitDisconnection
     = count_list (immediates w) EmitDisconnection"
  by (cases l; simp add: reject_def setImmediate_def settle_def)+

lemma settle_Fulfilled [simp]:
  "Fulfilled \<in> set (settle k (Rejected e) ps) \<longleftrightarrow> Fulfilled \<in> set ps"
proof (cases "k < length ps \<and> ps ! k = Pending")
  case True
  then have "set (ps[k := Rejected e]) \<subseteq> insert (Rejected e) (set ps)"
    by (simp add: set_update_subset_insert)
  moreover have "Fulfilled \<in> set ps \<Longrightarrow> Fulfilled \<in> set (ps[k := Rejected e])"
  proof -
    assume "Fulfilled \<in> set ps"
    then obtain j where j: "j < length ps" "ps ! j = Fulfilled"
      by (auto simp: in_set_conv_nth)
    with True have "j \<noteq> k" by auto
    with j have "ps[k := Rejected e] ! j = Fulfilled" by simp
    with j show ?thesis by (metis length_list_update nth_mem)
  qed
  ultimately show ?thesis using True by (auto simp: settle_def)
next
  case False
  then show ?thesis by (auto simp: settle_def)
qed

lemma invoke_succeeded [simp]: "connectSucceeded (invoke c l w) = connectSucceeded w"
  by (cases l) (simp_all add: connectSucceeded_def reject_def setImmediate_def)

lemma invoke_state:
  "state (invoke c l w) = state w \<or> (state w = Connecting \<and> state (invoke c l w) = Finished)"
  by (cases l) (simp_all add: reject_def setImmediate_def)

lemma disconnected_frame [simp]:
  "emitDisconnectOnClose (disconnected c w) = emitDisconnectOnClose w"
  "config (disconnected c w) = config w"
  "listeners (disconnected c w) = listeners w"
  "timer (disconnected c w) = timer w"
  "body (disconnected c w) = body w"
  "connectPromise (disconnected c w) = connectPromise w"
  "length (promises (disconnected c w)) = length (promises w)"
  "operations (disconnected c w) = operations w"
  "unclosedOperations (disconnected c w) = unclosedOperations w"
  "activatePromises (disconnected c w) = activatePromises w"
  "activations (disconnected c w) = activations w"
  "trace (disconnected c w) = trace w"
  "count_list (immediates (disconnected c w)) EmitDisconnection
     = count_list (immediates w) EmitDisconnection"
  "connectSucceeded (disconnected c w) = connectSucceeded w"
  by (rule fold_invoke; simp)+

lemma disconnected_state:
  "state (disconnected c w) = state w
   \<or> (state w = Connecting \<and> state (disconnected c w) = Finished)"
proof (rule fold_invoke)
  show "state w = state w \<or> (state w = Connecting \<and> state w = Finished)" by simp
next
  fix l and v :: world
  assume "state v = state w \<or> (state w = Connecting \<and> state v = Finished)"
  then show "state (invoke c l v) = state w
    \<or> (state w = Connecting \<and> state (invoke c l v) = Finished)"
    using invoke_state [of c l v] by auto
qed

lemma disconnected_Connecting:
  assumes "state (disconnected c w) = Connecting"
  shows "promises (disconnected c w) = promises w"
proof -
  have "state (disconnected c w) = Connecting \<longrightarrow> promises (disconnected c w) = promises w"
  proof (rule fold_invoke)
    show "state w = Connecting \<longrightarrow> promises w = promises w" by simp
  next
    fix l and v :: world
    assume h: "state v = Connecting \<longrightarrow> promises v = promises w"
    show "state (invoke c l v) = Connecting \<longrightarrow> promises (invoke c l v) = promises w"
      using h by (cases l) (auto simp: reject_def setImmediate_def split: if_splits)
  qed
  with assms show ?thesis by simp
qed


lemma callback_frame [simp]:
  "config (callback t w) = config w"
  "listeners (callback t w) = listeners w"
  "timer (callback t w) = timer w"
  "body (callback t w) = body w"
  "connectPromise (callback t w) = connectPromise w"
  "promises (callback t w) = promises w"
  "activatePromises (callback t w) = activatePromises w"
  "activations (callback t w) = activations w"
  "length (operations (callback t w)) = length (operations w)"
  by (cases t; simp add: perform_def)+

lemma runImmediate_frame [simp]:
  "config (runImmediate w) = config w"
  "listeners (runImmediate w) = listeners w"
  "timer (runImmediate w) = timer w"
  "body (runImmediate w) = body w"
  "connectPromise (runImmediate w) = connectPromise w"
  "promises (runImmediate w) = promises w"
  "activatePromises (runImmediate w) = activatePromises w"
  "activations (runImmediate w) = activations w"
  "length (operations (runImmediate w)) = length (operations w)"
  by (simp_all add: runImmediate_def split: list.splits)

lemma RpcClient_connect_config [simp]: "config (RpcClient_connect w) = config w"
  by (simp add: RpcClient_connect_def Let_def perform_def)

lemma timerFires_config [simp]: "config (timerFires w) = config w"
  by (simp add: timerFires_def onTimeout_def reject_def setImmediate_def split: option.splits)

lemma awaitResolved_config [simp]: "config (awaitResolved accepted v w) = config w"
  by (simp add: awaitResolved_def afterTry_def Let_def reject_def resolve_def setImmediate_def
      perform_def split: Body.splits option.splits)

lemma awaitThrew_config [simp]: "config (awaitThrew err w) = config w"
  by (simp add: awaitThrew_def onCatch_def reject_def setImmediate_def split: Body.splits)

lemma OperationBase_new_config [simp]: "config (snd (OperationBase_new failure w)) = config w"
  by (simp add: OperationBase_new_def newStream_def registerUnclosedOperation_def Let_def
      perform_def split: option.splits prod.splits)

lemma activate_config [simp]:
  "config (OperationBase_activate this w) = config w"
  "config (activateResolved k w) = config w"
  "config (activateThrew k err w) = config w"
  by (simp_all add: OperationBase_activate_def activateResolved_def activateThrew_def Let_def
      perform_def)

lemma step_config [simp]: "config (step accepted w e) = config w"
  by (cases e) simp_all


subsection \<open>What each event leaves alone\<close>

lemma RpcClient_connect_frame [simp]:
  "owed (RpcClient_connect w) = owed w"
  "connectSucceeded (RpcClient_connect w) = connectSucceeded w"
  "state (RpcClient_connect w) = (if state w = StateNone then Connecting else state w)"
  "operations (RpcClient_connect w) = operations w"
  "unclosedOperations (RpcClient_connect w) = unclosedOperations w"
  by (simp_all add: RpcClient_connect_def Let_def perform_def owed_def connectSucceeded_def)

lemma timerFires_frame [simp]:
  "owed (timerFires w) = owed w"
  "connectSucceeded (timerFires w) = connectSucceeded w"
  "state (timerFires w) = (if timer w \<noteq> None \<and> state w = Connecting then Finished else state w)"
  "operations (timerFires w) = operations w"
  "unclosedOperations (timerFires w) = unclosedOperations w"
  by (simp_all add: timerFires_def onTimeout_def reject_def setImmediate_def owed_def
      connectSucceeded_def split: option.splits)

lemma disconnected_owed [simp]: "owed (disconnected c w) = owed w"
  by (simp add: owed_def)

lemma awaitThrew_frame [simp]:
  "owed (awaitThrew err w) = owed w"
  "connectSucceeded (awaitThrew err w) = connectSucceeded w"
  "state (awaitThrew err w) =
     (if body w = NotStarted \<or> body w = Returned then state w else Finished)"
  "operations (awaitThrew err w) = operations w"
  "unclosedOperations (awaitThrew err w) = unclosedOperations w"
  by (simp_all add: awaitThrew_def onCatch_def reject_def setImmediate_def owed_def
      connectSucceeded_def split: Body.splits)

lemma awaitResolved_frame [simp]:
  "operations (awaitResolved accepted v w) = operations w"
  "unclosedOperations (awaitResolved accepted v w) = unclosedOperations w"
  by (simp_all add: awaitResolved_def afterTry_def Let_def reject_def resolve_def
      setImmediate_def perform_def split: Body.splits option.splits)

lemma callback_owed:
  "owed (callback t (w\<lparr> immediates := ts \<rparr>)) = owed (w\<lparr> immediates := t # ts \<rparr>)"
  by (cases t) (simp_all, simp_all add: perform_def owed_def)

lemma runImmediate_owed [simp]: "owed (runImmediate w) = owed w"
proof (cases "immediates w")
  case Nil
  then show ?thesis by (simp add: runImmediate_def)
next
  case (Cons t ts)
  then have "owed (w\<lparr> immediates := t # ts \<rparr>) = owed w" by (simp add: owed_def)
  with Cons show ?thesis using callback_owed [of t ts w] by (simp add: runImmediate_def)
qed

lemma runImmediate_succeeded [simp]: "connectSucceeded (runImmediate w) = connectSucceeded w"
  by (simp add: connectSucceeded_def)

lemma runImmediate_state: "state (runImmediate w) = state w \<or> state (runImmediate w) = Closed"
proof (cases "immediates w")
  case Nil
  then show ?thesis by (simp add: runImmediate_def)
next
  case (Cons t ts)
  then show ?thesis by (cases t) (simp_all add: runImmediate_def perform_def)
qed

lemma OperationBase_close_owed [simp]:
  "owed (snd (OperationBase_close this w)) = owed w"
  "connectSucceeded (snd (OperationBase_close this w)) = connectSucceeded w"
  by (simp_all add: owed_def connectSucceeded_def)

lemma OperationBase_new_frame [simp]:
  "state (snd (OperationBase_new failure w)) = state w"
  "timer (snd (OperationBase_new failure w)) = timer w"
  "connectPromise (snd (OperationBase_new failure w)) = connectPromise w"
  "promises (snd (OperationBase_new failure w)) = promises w"
  "owed (snd (OperationBase_new failure w)) = owed w"
  "connectSucceeded (snd (OperationBase_new failure w)) = connectSucceeded w"
  by (simp_all add: OperationBase_new_def newStream_def registerUnclosedOperation_def Let_def
      perform_def owed_def connectSucceeded_def split: option.splits prod.splits)

lemma OperationBase_activate_frame [simp]:
  "state (OperationBase_activate this w) = state w"
  "timer (OperationBase_activate this w) = timer w"
  "connectPromise (OperationBase_activate this w) = connectPromise w"
  "promises (OperationBase_activate this w) = promises w"
  "owed (OperationBase_activate this w) = owed w"
  "connectSucceeded (OperationBase_activate this w) = connectSucceeded w"
  "unclosedOperations (OperationBase_activate this w) = unclosedOperations w"
  "length (operations (OperationBase_activate this w)) = length (operations w)"
  by (simp_all add: OperationBase_activate_def Let_def perform_def owed_def
      connectSucceeded_def)

lemma activateResolved_frame [simp]:
  "state (activateResolved k w) = state w"
  "timer (activateResolved k w) = timer w"
  "connectPromise (activateResolved k w) = connectPromise w"
  "promises (activateResolved k w) = promises w"
  "owed (activateResolved k w) = owed w"
  "connectSucceeded (activateResolved k w) = connectSucceeded w"
  "unclosedOperations (activateResolved k w) = unclosedOperations w"
  "length (operations (activateResolved k w)) = length (operations w)"
  by (simp_all add: activateResolved_def Let_def owed_def connectSucceeded_def)

lemma activateThrew_frame [simp]:
  "state (activateThrew k err w) = state w"
  "timer (activateThrew k err w) = timer w"
  "connectPromise (activateThrew k err w) = connectPromise w"
  "promises (activateThrew k err w) = promises w"
  "owed (activateThrew k err w) = owed w"
  "connectSucceeded (activateThrew k err w) = connectSucceeded w"
  "unclosedOperations (activateThrew k err w) = unclosedOperations w"
  "operations (activateThrew k err w) = operations w"
  by (simp_all add: activateThrew_def Let_def owed_def connectSucceeded_def)

subsection \<open>Runs\<close>

lemma run_Nil [simp]: "run accepted cfg [] = init cfg"
  by (simp add: run_def)

lemma run_snoc [simp]: "run accepted cfg (evs @ [e]) = step accepted (run accepted cfg evs) e"
  by (simp add: run_def)

lemma run_config [simp]: "config (run accepted cfg evs) = cfg"
  by (induction evs rule: rev_induct) (simp_all add: init_def)

lemma step_state_None: "state (step accepted w e) = StateNone \<Longrightarrow> state w = StateNone"
proof (cases e)
  case (ConnectionDisconnected c)
  assume "state (step accepted w e) = StateNone"
  with ConnectionDisconnected show ?thesis using disconnected_state [of c w] by auto
next
  case RunImmediate
  assume "state (step accepted w e) = StateNone"
  with RunImmediate show ?thesis using runImmediate_state [of w] by auto
next
  case (AwaitResolves v)
  assume "state (step accepted w e) = StateNone"
  with AwaitResolves show ?thesis
    by (simp add: awaitResolved_def afterTry_def Let_def reject_def resolve_def
      setImmediate_def perform_def split: Body.splits option.splits if_splits)
qed (simp_all split: if_splits)


lemma pristine_step:
  assumes "pristine w"
  shows "pristine (step accepted w e)"
proof (cases "state (step accepted w e) = StateNone")
  case False
  then show ?thesis by (simp add: pristine_def)
next
  case True
  then have n: "state w = StateNone" by (rule step_state_None)
  with assms have f: "timer w = None" "body w = NotStarted" "listeners w = []"
    "operations w = []" "immediates w = []" "promises w = []" "activatePromises w = []"
    "\<not> emitDisconnectOnClose w" "disconnections w = 0"
    by (simp_all add: pristine_def)
  have "step accepted w e = w"
  proof (cases e)
    case CallConnect
    with True n show ?thesis by simp
  next
    case TimerFires
    with f show ?thesis by (simp add: timerFires_def)
  next
    case (ConnectionDisconnected c)
    with f show ?thesis by (simp add: disconnected_def)
  next
    case (AwaitResolves v)
    with f show ?thesis by (simp add: awaitResolved_def)
  next
    case (AwaitThrows err)
    with f show ?thesis by (simp add: awaitThrew_def)
  next
    case CallClose
    with True show ?thesis by simp
  next
    case RunImmediate
    with f show ?thesis by (simp add: runImmediate_def)
  next
    case (NewOperation failure)
    with n show ?thesis by (simp add: OperationBase_new_def newStream_def)
  next
    case (CallOperationClose this)
    with f show ?thesis by (simp add: OperationBase_close_def)
  next
    case (StreamBreaks this failure)
    with f show ?thesis by simp
  next
    case (CallActivate this)
    with f show ?thesis by (simp add: OperationBase_activate_def)
  next
    case (ActivateResolves k)
    with f show ?thesis by (simp add: activateResolved_def)
  next
    case (ActivateThrows k err)
    with f show ?thesis by (simp add: activateThrew_def)
  qed
  with assms show ?thesis by simp
qed

lemma pristine_run: "pristine (run accepted cfg evs)"
  by (induction evs rule: rev_induct) (simp_all add: pristine_step, simp add: pristine_def init_def)

lemma connecting_step:
  assumes p: "pristine w" and c: "connecting_inv w"
  shows "connecting_inv (step accepted w e)"
proof (cases e)
  case CallConnect
  show ?thesis
  proof (cases "state w = StateNone")
    case True
    with p have "promises w = []" "immediates w = []" "\<not> emitDisconnectOnClose w"
      "disconnections w = 0"
      by (simp_all add: pristine_def)
    with True CallConnect show ?thesis
      by (simp add: connecting_inv_def RpcClient_connect_def Let_def perform_def settle_def
          owed_def connectSucceeded_def armed_def)
  next
    case False
    with c CallConnect show ?thesis
      by (auto simp add: connecting_inv_def RpcClient_connect_def Let_def settle_def nth_append
          owed_def connectSucceeded_def armed_def)
  qed
next
  case TimerFires
  with c show ?thesis
    by (auto simp add: connecting_inv_def armed_def)
next
  case (ConnectionDisconnected code)
  show ?thesis
  proof (cases "state (disconnected code w) = Connecting")
    case True
    then have "state w = Connecting" using disconnected_state [of code w] by auto
    with c True ConnectionDisconnected show ?thesis
      by (simp add: connecting_inv_def armed_def disconnected_Connecting)
  next
    case False
    with ConnectionDisconnected show ?thesis by (simp add: connecting_inv_def)
  qed
next
  case (AwaitResolves v)
  with c show ?thesis
    by (auto simp add: connecting_inv_def awaitResolved_def afterTry_def Let_def reject_def
        resolve_def setImmediate_def perform_def owed_def connectSucceeded_def armed_def
        split: Body.splits if_splits)
next
  case (AwaitThrows err)
  show ?thesis
  proof (cases "body w = NotStarted \<or> body w = Returned")
    case True
    then have "awaitThrew err w = w" by (auto simp: awaitThrew_def)
    with c AwaitThrows show ?thesis by simp
  next
    case False
    with AwaitThrows show ?thesis by (simp add: connecting_inv_def)
  qed
next
  case CallClose
  then show ?thesis by (simp add: connecting_inv_def)
next
  case RunImmediate
  with c show ?thesis
    using runImmediate_state [of w] by (auto simp: connecting_inv_def armed_def)
next
  case (NewOperation failure)
  with c show ?thesis by (simp add: connecting_inv_def armed_def)
next
  case (CallOperationClose this)
  with c show ?thesis by (simp add: connecting_inv_def armed_def)
next
  case (StreamBreaks this failure)
  with c show ?thesis by (simp add: connecting_inv_def armed_def owed_def connectSucceeded_def)
next
  case (CallActivate this)
  with c show ?thesis by (simp add: connecting_inv_def armed_def)
next
  case (ActivateResolves k)
  with c show ?thesis by (simp add: connecting_inv_def armed_def)
next
  case (ActivateThrows k err)
  with c show ?thesis by (simp add: connecting_inv_def armed_def)
qed

lemma connecting_run: "connecting_inv (run accepted cfg evs)"
proof (induction evs rule: rev_induct)
  case Nil
  show ?case by (simp add: connecting_inv_def init_def)
next
  case (snoc e evs)
  then show ?case using pristine_run [of accepted cfg evs] by (simp add: connecting_step)
qed

lemma settle_pending_Fulfilled:
  "k < length ps \<Longrightarrow> ps ! k = Pending \<Longrightarrow> Fulfilled \<in> set (settle k Fulfilled ps)"
  by (simp add: settle_def set_update_memI)

lemma owed_step:
  assumes c: "connecting_inv w" and o: "owed_inv w"
  shows "owed_inv (step accepted w e)"
proof (cases e)
  case (AwaitResolves v)
  show ?thesis
  proof (cases "body w = AwaitConnectResponse \<and> state w = Connecting")
    case True
    with c have k: "connectPromise w < length (promises w)"
      "promises w ! connectPromise w = Pending" "owed w = 0"
      by (simp_all add: connecting_inv_def)
    from k(3) have z: "\<not> emitDisconnectOnClose w"
      "count_list (immediates w) EmitDisconnection = 0" "disconnections w = 0"
      by (simp_all add: owed_def split: if_splits)
    from True AwaitResolves k(1,2) z show ?thesis
      by (simp add: owed_inv_def awaitResolved_def afterTry_def Let_def reject_def
          resolve_def setImmediate_def owed_def connectSucceeded_def
          settle_pending_Fulfilled split: option.splits)
  next
    case False
    with o AwaitResolves show ?thesis
      by (auto simp add: owed_inv_def awaitResolved_def afterTry_def Let_def
          perform_def owed_def connectSucceeded_def split: Body.splits if_splits)
  qed
next
  case (StreamBreaks this failure)
  with o show ?thesis
    by (auto simp add: owed_inv_def owed_def connectSucceeded_def split: if_splits)
qed (use o in \<open>simp_all add: owed_inv_def\<close>)

lemma owed_run: "owed_inv (run accepted cfg evs)"
proof (induction evs rule: rev_induct)
  case Nil
  show ?case by (simp add: owed_inv_def owed_def init_def)
next
  case (snoc e evs)
  then show ?case using connecting_run [of accepted cfg evs] by (simp add: owed_step)
qed

subsection \<open>Calls in the wrong state\<close>

lemma state_not_None_again:
  "CallConnect \<in> set evs \<Longrightarrow> state (run accepted cfg evs) \<noteq> StateNone"
proof (induction evs rule: rev_induct)
  case Nil
  then show ?case by simp
next
  case (snoc e evs)
  show ?case
  proof (cases "e = CallConnect")
    case True
    then show ?thesis by simp
  next
    case False
    with snoc.prems have "CallConnect \<in> set evs" by simp
    then have "state (run accepted cfg evs) \<noteq> StateNone" by (rule snoc.IH)
    then show ?thesis using step_state_None [of accepted "run accepted cfg evs" e] by auto
  qed
qed

text \<open>
  Claim C7. A call of \<open>connect()\<close> while the state of the client is not \<open>None\<close> returns
  a promise that is rejected at once with a \<open>ClientStateError\<close>, and changes nothing else:
  not the state, not the trace of calls on the transport. Once \<open>connect()\<close> was called
  the state is never \<open>None\<close> again, whatever came of the call, so this is what every later
  call does. A call of \<open>activate()\<close> while the state of the operation is not \<open>None\<close>
  likewise returns a promise rejected with a \<open>ClientStateError\<close>, and touches neither the
  operations nor the transport.
\<close>

theorem connect_activate_only_from_None:
  "(state w \<noteq> StateNone \<longrightarrow>
      RpcClient_connect w =
        w\<lparr> promises := promises w @ [Rejected
              (\<lparr> type = ClientStateError,
                 description = ''RpcClient.connect() can only be called once'',
                 internalError = None \<rparr>)] \<rparr>
      \<and> state (RpcClient_connect w) = state w
      \<and> trace (RpcClient_connect w) = trace w)
   \<and> (CallConnect \<in> set evs \<longrightarrow> state (run accepted cfg evs) \<noteq> StateNone)
   \<and> (this < length (operations w) \<and> op_state (operations w ! this) \<noteq> OpNone \<longrightarrow>
      OperationBase_activate this w =
        w\<lparr> activatePromises := activatePromises w @ [Rejected
              (\<lparr> type = ClientStateError,
                 description = ''Eventstream operations may only have activate() invoked once'',
                 internalError = None \<rparr>)],
           activations := activations w @ [this] \<rparr>
      \<and> operations (OperationBase_activate this w) = operations w
      \<and> trace (OperationBase_activate this w) = trace w)"
  using state_not_None_again [of evs accepted cfg]
  by (simp add: RpcClient_connect_def OperationBase_activate_def Let_def settle_def
      createRpcError_def)

theorem connect_activate_only_from_None_witness:
  "CallConnect \<in> set handshake
   \<and> state (run 1 exampleConfig handshake) \<noteq> StateNone
   \<and> promises (RpcClient_connect (run 1 exampleConfig handshake)) =
       [Fulfilled, Rejected
             (\<lparr> type = ClientStateError,
                description = ''RpcClient.connect() can only be called once'',
                internalError = None \<rparr>)]
   \<and> state (RpcClient_connect (run 1 exampleConfig handshake)) = Connected
   \<and> 0 < length (operations (run 1 exampleConfig (handshake @ [NewOperation None, CallOperationClose 0])))
   \<and> op_state (operations (run 1 exampleConfig (handshake @ [NewOperation None, CallOperationClose 0])) ! 0) \<noteq> OpNone
   \<and> activatePromises (OperationBase_activate 0
         (run 1 exampleConfig (handshake @ [NewOperation None, CallOperationClose 0]))) =
       [Rejected
             (\<lparr> type = ClientStateError,
                description = ''Eventstream operations may only have activate() invoked once'',
                internalError = None \<rparr>)]"
proof -
  have h0: "CallConnect \<in> set handshake"
    by (simp add: handshake_def)
  have p1: "promises (run 1 exampleConfig handshake) = [Fulfilled]"
    by code_simp
  have s1: "state (run 1 exampleConfig handshake) = Connected"
    by code_simp
  have h2: "0 < length (operations (run 1 exampleConfig (handshake @ [NewOperation None, CallOperationClose 0])))"
    by code_simp
  have h3: "op_state (operations (run 1 exampleConfig (handshake @ [NewOperation None, CallOperationClose 0])) ! 0) \<noteq> OpNone"
    by code_simp
  have p2: "activatePromises (run 1 exampleConfig (handshake @ [NewOperation None, CallOperationClose 0])) = []"
    by code_simp
  show ?thesis
    using h0 h2 h3 p1 p2 s1
      connect_activate_only_from_None
        [of "run 1 exampleConfig handshake" handshake 1 exampleConfig 0]
      connect_activate_only_from_None
        [of "run 1 exampleConfig (handshake @ [NewOperation None, CallOperationClose 0])"
          handshake 1 exampleConfig 0]
    by simp
qed

subsection \<open>Running the callbacks\<close>

lemma runImmediate_progress:
  assumes "immediates w \<noteq> []"
  shows "(state (runImmediate w) = Closed \<and> state w \<noteq> Closed)
         \<or> (state (runImmediate w) = state w
             \<and> length (immediates (runImmediate w)) < length (immediates w))"
proof -
  from assms obtain t ts where ts: "immediates w = t # ts" by (cases "immediates w") auto
  show ?thesis
  proof (cases t)
    case ClientClose
    show ?thesis
    proof (cases "state w = Closed")
      case True
      with ts ClientClose show ?thesis
        by (simp add: runImmediate_def RpcClient_close_def)
    next
      case False
      with ts ClientClose show ?thesis by (simp add: runImmediate_def)
    qed
  qed (use ts in \<open>simp_all add: runImmediate_def perform_def\<close>)
qed

termination drain
proof (relation "measures [\<lambda>w. if state w = Closed then 0 else 1, \<lambda>w. length (immediates w)]")
  show "wf (measures [\<lambda>w. if state w = Closed then 0 else 1, \<lambda>w::world. length (immediates w)])"
    by simp
next
  fix w :: world
  assume "immediates w \<noteq> []"
  then show "(runImmediate w, w)
    \<in> measures [\<lambda>w. if state w = Closed then 0 else 1, \<lambda>w. length (immediates w)]"
    using runImmediate_progress [of w] by auto
qed

declare drain.simps [simp del]

lemma runImmediate_towards_Closed:
  assumes "immediates w \<noteq> []" and "ClientClose \<in> set (immediates w) \<or> state w = Closed"
  shows "ClientClose \<in> set (immediates (runImmediate w)) \<or> state (runImmediate w) = Closed"
proof -
  from assms(1) obtain t ts where ts: "immediates w = t # ts" by (cases "immediates w") auto
  show ?thesis
  proof (cases t)
    case ClientClose
    with ts show ?thesis by (simp add: runImmediate_def)
  qed (use ts assms(2) in \<open>auto simp add: runImmediate_def perform_def\<close>)
qed

lemma drain_Closed:
  "ClientClose \<in> set (immediates w) \<or> state w = Closed \<Longrightarrow> state (drain w) = Closed"
proof (induction w rule: drain.induct)
  case (1 w)
  show ?case
  proof (cases "immediates w = []")
    case True
    with "1.prems" show ?thesis by (simp add: drain.simps [of w])
  next
    case False
    with "1.prems" have "ClientClose \<in> set (immediates (runImmediate w))
        \<or> state (runImmediate w) = Closed"
      by (simp add: runImmediate_towards_Closed)
    with False "1.IH" show ?thesis by (simp add: drain.simps [of w])
  qed
qed

lemma drain_empty: "immediates (drain w) = []"
proof (induction w rule: drain.induct)
  case (1 w)
  then show ?case by (cases "immediates w = []") (simp_all add: drain.simps [of w])
qed

subsection \<open>The \<open>disconnection\<close> notification\<close>

text \<open>
  Claim C1. Whatever happens to a client (calls, timers, events and answers of the
  transport, callbacks, in any order and number), the \<open>disconnection\<close> notification is
  delivered at most once, and only after a promise of \<open>connect()\<close> was fulfilled; as long
  as the notification is still owed (the flag \<open>emitDisconnectOnClose\<close> is set, or the
  callback is queued), none was delivered.
\<close>

theorem disconnection_at_most_once:
  "disconnections (run accepted cfg evs) \<le> 1
   \<and> (0 < disconnections (run accepted cfg evs) \<longrightarrow> connectSucceeded (run accepted cfg evs))
   \<and> (emitDisconnectOnClose (run accepted cfg evs)
        \<or> EmitDisconnection \<in> set (immediates (run accepted cfg evs)) \<longrightarrow>
          disconnections (run accepted cfg evs) = 0 \<and> connectSucceeded (run accepted cfg evs))"
proof -
  define d where "d = disconnections (run accepted cfg evs)"
  define c where "c = count_list (immediates (run accepted cfg evs)) EmitDisconnection"
  have o: "(if emitDisconnectOnClose (run accepted cfg evs) then 1 else 0) + c + d
      \<le> (if connectSucceeded (run accepted cfg evs) then 1 else 0)"
    using owed_run [of accepted cfg evs] by (simp add: owed_inv_def owed_def d_def c_def)
  have q: "EmitDisconnection \<in> set (immediates (run accepted cfg evs)) \<Longrightarrow> 0 < c"
    using count_list_0_iff [of "immediates (run accepted cfg evs)" EmitDisconnection]
    by (auto simp: c_def)
  have "d \<le> 1 \<and> (0 < d \<longrightarrow> connectSucceeded (run accepted cfg evs))
    \<and> (emitDisconnectOnClose (run accepted cfg evs)
        \<or> EmitDisconnection \<in> set (immediates (run accepted cfg evs)) \<longrightarrow>
          d = 0 \<and> connectSucceeded (run accepted cfg evs))"
    using o q by (auto split: if_splits)
  then show ?thesis unfolding d_def .
qed

theorem disconnection_at_most_once_witness:
  "0 < disconnections (run 1 exampleConfig
         (handshake @ [CallClose, RunImmediate, CallClose, RunImmediate]))
   \<and> disconnections (run 1 exampleConfig
         (handshake @ [CallClose, RunImmediate, CallClose, RunImmediate])) \<le> 1
   \<and> connectSucceeded (run 1 exampleConfig
         (handshake @ [CallClose, RunImmediate, CallClose, RunImmediate]))
   \<and> emitDisconnectOnClose (run 1 exampleConfig handshake)
   \<and> disconnections (run 1 exampleConfig handshake) = 0"
proof -
  have h1: "0 < disconnections (run 1 exampleConfig
         (handshake @ [CallClose, RunImmediate, CallClose, RunImmediate]))"
    by code_simp
  have h2: "emitDisconnectOnClose (run 1 exampleConfig handshake)"
    by code_simp
  show ?thesis
    using h1 h2
      disconnection_at_most_once [of 1 exampleConfig
        "handshake @ [CallClose, RunImmediate, CallClose, RunImmediate]"]
      disconnection_at_most_once [of 1 exampleConfig handshake]
    by simp
qed

subsection \<open>The acknowledgement\<close>

lemma isValidConnack_iff:
  "isValidConnack accepted m \<longleftrightarrow>
     msg_type m = ConnectAck
     \<and> ToInt32 (case msg_flags m of None \<Rightarrow> 0 | Some f \<Rightarrow> f) AND ToInt32 accepted \<noteq> 0"
  by (simp add: isValidConnack_def)

lemma ToInt32_bit:
  assumes "k < 32"
  shows "ToInt32 f AND ToInt32 (2 ^ k) \<noteq> 0 \<longleftrightarrow> bit f k"
proof -
  have "ToInt32 (2 ^ k) = (2 ^ k :: 32 word)" by (simp add: ToInt32_def)
  then have "ToInt32 f AND ToInt32 (2 ^ k) \<noteq> 0 \<longleftrightarrow> bit (ToInt32 f) k"
    by (simp add: and_exp_eq_0_iff_not_bit)
  also have "\<dots> \<longleftrightarrow> bit f k"
    using assms by (simp add: ToInt32_def bit_word_of_int_iff)
  finally show ?thesis .
qed

text \<open>
  Claim C6. When the answer to the connect message arrives while the state is still
  \<open>Connecting\<close>, \<open>connect()\<close> succeeds exactly if the answer is a message of type
  \<open>ConnectAck\<close> whose flags (0 when absent) share a bit with \<open>ConnectionAccepted\<close>; then
  the state is \<open>Connected\<close> and the promise is fulfilled. Otherwise the state is
  \<open>Finished\<close>, the promise is rejected with a \<open>ProtocolError\<close>, and a close is scheduled.
  Where \<open>ConnectionAccepted\<close> is the single bit \<open>k\<close>, the acknowledgement is valid
  exactly if its type is \<open>ConnectAck\<close> and bit \<open>k\<close> of its flags is set.
\<close>

theorem connack_validation:
  assumes "w = run accepted cfg evs"
    and "state w = Connecting" and "body w = AwaitConnectResponse"
    and "w' = step accepted w (AwaitResolves connack)"
  shows "(connectSucceeded w' \<longleftrightarrow>
            (\<exists>m. connack = Some m \<and> msg_type m = ConnectAck
               \<and> ToInt32 (case msg_flags m of None \<Rightarrow> 0 | Some f \<Rightarrow> f) AND ToInt32 accepted \<noteq> 0))
    \<and> (connectSucceeded w' \<longrightarrow>
          state w' = Connected \<and> promises w' ! connectPromise w' = Fulfilled)
    \<and> (\<not> connectSucceeded w' \<longrightarrow>
          state w' = Finished
          \<and> promises w' ! connectPromise w' = Rejected
                (\<lparr> type = ProtocolError,
                   description = ''Failed to establish eventstream RPC connection - invalid connack'',
                   internalError = None \<rparr>)
          \<and> immediates w' = immediates w @ [ClientClose])
    \<and> (\<forall>k m. k < 32 \<and> accepted = 2 ^ k \<longrightarrow>
          (isValidConnack accepted m \<longleftrightarrow>
             msg_type m = ConnectAck
             \<and> bit (case msg_flags m of None \<Rightarrow> 0 | Some f \<Rightarrow> f) k))"
proof -
  from assms(1,2) have k: "connectPromise w < length (promises w)"
    "promises w ! connectPromise w = Pending" "\<not> connectSucceeded w"
    using connecting_run [of accepted cfg evs] by (simp_all add: connecting_inv_def)
  from k(1,2) have f: "Fulfilled \<in> set (settle (connectPromise w) Fulfilled (promises w))"
    by (rule settle_pending_Fulfilled)
  have bits: "\<forall>k m. k < 32 \<and> accepted = 2 ^ k \<longrightarrow>
          (isValidConnack accepted m \<longleftrightarrow>
             msg_type m = ConnectAck
             \<and> bit (case msg_flags m of None \<Rightarrow> 0 | Some f \<Rightarrow> f) k)"
    by (auto simp add: isValidConnack_iff ToInt32_bit)
  show ?thesis
  proof (cases "case connack of None \<Rightarrow> True | Some m \<Rightarrow> \<not> isValidConnack accepted m")
    case True
    then have w': "w' = setImmediate ClientClose
                (reject
                      (\<lparr> type = ProtocolError,
                         description = ''Failed to establish eventstream RPC connection - invalid connack'',
                         internalError = None \<rparr>)
                   (w\<lparr> body := Returned, state := Finished \<rparr>))"
      using assms by (simp add: awaitResolved_def afterTry_def Let_def createRpcError_def)
    from True have "\<not> (\<exists>m. connack = Some m \<and> msg_type m = ConnectAck
               \<and> ToInt32 (case msg_flags m of None \<Rightarrow> 0 | Some f \<Rightarrow> f) AND ToInt32 accepted \<noteq> 0)"
      by (auto simp add: isValidConnack_iff split: option.splits)
    moreover have "\<not> connectSucceeded w'"
      using k(3) by (simp add: w' connectSucceeded_def reject_def setImmediate_def)
    moreover have "state w' = Finished" "immediates w' = immediates w @ [ClientClose]"
      "promises w' ! connectPromise w' = Rejected
            (\<lparr> type = ProtocolError,
               description = ''Failed to establish eventstream RPC connection - invalid connack'',
               internalError = None \<rparr>)"
      using k(1,2) by (simp_all add: w' reject_def setImmediate_def settle_def)
    ultimately show ?thesis using bits by blast
  next
    case False
    then have w': "w' = resolve
                (w\<lparr> body := Returned,
                     listeners := remove1 OnDisconnectWhileConnecting (listeners w) @ [OnDisconnect],
                     emitDisconnectOnClose := True,
                     state := Connected \<rparr>)"
      using assms by (simp add: awaitResolved_def afterTry_def Let_def createRpcError_def)
    from False have "\<exists>m. connack = Some m \<and> msg_type m = ConnectAck
               \<and> ToInt32 (case msg_flags m of None \<Rightarrow> 0 | Some f \<Rightarrow> f) AND ToInt32 accepted \<noteq> 0"
      by (auto simp add: isValidConnack_iff split: option.splits)
    moreover have "connectSucceeded w'"
      using f by (simp add: w' connectSucceeded_def resolve_def)
    moreover have "state w' = Connected" "promises w' ! connectPromise w' = Fulfilled"
      using k(1,2) by (simp_all add: w' resolve_def settle_def)
    ultimately show ?thesis using bits by blast
  qed
qed

theorem connack_validation_witness:
  "state (run 1 exampleConfig awaitingConnack) = Connecting
   \<and> body (run 1 exampleConfig awaitingConnack) = AwaitConnectResponse
   \<and> state (step 1 (run 1 exampleConfig awaitingConnack)
        (AwaitResolves (Some exampleConnack))) = Connected
   \<and> connectSucceeded (step 1 (run 1 exampleConfig awaitingConnack)
        (AwaitResolves (Some exampleConnack)))
   \<and> state (step 1 (run 1 exampleConfig awaitingConnack)
        (AwaitResolves (Some (exampleConnack\<lparr> msg_flags := None \<rparr>)))) = Finished
   \<and> \<not> connectSucceeded (step 1 (run 1 exampleConfig awaitingConnack)
        (AwaitResolves (Some (exampleConnack\<lparr> msg_flags := None \<rparr>))))
   \<and> isValidConnack 1 exampleConnack"
proof -
  have h1: "state (run 1 exampleConfig awaitingConnack) = Connecting"
    by code_simp
  have h2: "body (run 1 exampleConfig awaitingConnack) = AwaitConnectResponse"
    by code_simp
  have good: "\<exists>m. Some exampleConnack = Some m \<and> msg_type m = ConnectAck
      \<and> ToInt32 (case msg_flags m of None \<Rightarrow> 0 | Some f \<Rightarrow> f) AND ToInt32 1 \<noteq> 0"
    by (simp add: exampleConnack_def ToInt32_def)
  have bad: "\<not> (\<exists>m. Some (exampleConnack\<lparr> msg_flags := None \<rparr>) = Some m \<and> msg_type m = ConnectAck
      \<and> ToInt32 (case msg_flags m of None \<Rightarrow> 0 | Some f \<Rightarrow> f) AND ToInt32 1 \<noteq> 0)"
    by (simp add: exampleConnack_def ToInt32_def)
  have k: "(0::nat) < 32 \<and> (1::int) = 2 ^ 0"
    by simp
  have b: "msg_type exampleConnack = ConnectAck
      \<and> bit (case msg_flags exampleConnack of None \<Rightarrow> (0::int) | Some f \<Rightarrow> f) 0"
    by (simp add: exampleConnack_def)
  note t1 = connack_validation [OF refl h1 h2 refl, of "Some exampleConnack"]
  note t2 = connack_validation [OF refl h1 h2 refl,
      of "Some (exampleConnack\<lparr> msg_flags := None \<rparr>)"]
  from t1 k b have v: "isValidConnack 1 exampleConnack" by blast
  from t1 good t2 bad h1 h2 v show ?thesis by blast
qed

subsection \<open>The connect timer\<close>

text \<open>
  Claim C5. While the state is \<open>Connecting\<close> the timer is armed with \<open>connectTimeoutMs\<close>,
  or with 5000 when the configuration has none. When it fires in that state, the state
  becomes \<open>Finished\<close>, the promise of \<open>connect()\<close> is rejected with a \<open>NetworkError\<close>, a
  close is scheduled as the last callback, and running the scheduled callbacks, with no
  further call, ends with the state \<open>Closed\<close>.
\<close>

theorem connect_timeout:
  assumes "w = run accepted cfg evs" and "state w = Connecting"
    and "w' = step accepted w TimerFires"
  shows "timer w = Some (case connectTimeoutMs cfg of None \<Rightarrow> 5000 | Some t \<Rightarrow> t)
    \<and> state w' = Finished
    \<and> promises w' ! connectPromise w' =
        Rejected
              (\<lparr> type = NetworkError,
                 description = ''RpcClient.connect() timed out'',
                 internalError = None \<rparr>)
    \<and> immediates w' = immediates w @ [ClientClose]
    \<and> state (drain w') = Closed
    \<and> immediates (drain w') = []"
proof -
  from assms(1,2) have k: "connectPromise w < length (promises w)"
    "promises w ! connectPromise w = Pending" "timer w = armed w"
    using connecting_run [of accepted cfg evs] by (simp_all add: connecting_inv_def)
  from k(3) assms(1) have t: "timer w = Some (case connectTimeoutMs cfg of None \<Rightarrow> 5000 | Some t \<Rightarrow> t)"
    by (simp add: armed_def DEFAULT_CONNECT_TIMEOUT_MS_def split: option.splits)
  have w': "w' = setImmediate ClientClose
             (reject
                   (\<lparr> type = NetworkError,
                      description = ''RpcClient.connect() timed out'',
                      internalError = None \<rparr>)
                (w\<lparr> timer := None, state := Finished \<rparr>))"
    using assms(2,3) t by (simp add: timerFires_def onTimeout_def createRpcError_def)
  have s: "state w' = Finished" "immediates w' = immediates w @ [ClientClose]"
    "promises w' ! connectPromise w' =
        Rejected
              (\<lparr> type = NetworkError,
                 description = ''RpcClient.connect() timed out'',
                 internalError = None \<rparr>)"
    using k(1,2) by (simp_all add: w' reject_def setImmediate_def settle_def)
  from s(2) have "ClientClose \<in> set (immediates w')" by simp
  then have "state (drain w') = Closed" by (simp add: drain_Closed)
  with t s show ?thesis by (simp add: drain_empty)
qed

theorem connect_timeout_witness:
  "state (run 1 exampleConfig [CallConnect]) = Connecting
   \<and> timer (run 1 exampleConfig [CallConnect]) = Some 5000
   \<and> state (step 1 (run 1 exampleConfig [CallConnect]) TimerFires) = Finished
   \<and> promises (step 1 (run 1 exampleConfig [CallConnect]) TimerFires) ! 0 =
        Rejected
              (\<lparr> type = NetworkError,
                 description = ''RpcClient.connect() timed out'',
                 internalError = None \<rparr>)
   \<and> immediates (step 1 (run 1 exampleConfig [CallConnect]) TimerFires) = [ClientClose]
   \<and> state (drain (step 1 (run 1 exampleConfig [CallConnect]) TimerFires)) = Closed"
proof -
  have h: "state (run 1 exampleConfig [CallConnect]) = Connecting"
    by code_simp
  have c: "connectTimeoutMs exampleConfig = None"
    by (simp add: exampleConfig_def)
  have p: "connectPromise (step 1 (run 1 exampleConfig [CallConnect]) TimerFires) = 0"
    by code_simp
  have i: "immediates (run 1 exampleConfig [CallConnect]) = []"
    by code_simp
  show ?thesis
    using h c p i connect_timeout [OF refl h refl]
    by simp
qed

subsection \<open>The registry\<close>

lemma registry_inv_same:
  "operations w' = operations w \<Longrightarrow> unclosedOperations w' = unclosedOperations w \<Longrightarrow>
     registry_inv w' = registry_inv w"
  by (simp add: registry_inv_def cong: option.case_cong)

lemma nth_list_update_any:
  "xs[j := v] ! i = (if i = j \<and> j < length xs then v else xs ! i)"
  by (cases "j < length xs") (auto simp add: nth_list_update list_update_beyond)

lemma registry_inv_states:
  assumes "registry_inv w" and "length (operations w') = length (operations w)"
    and "\<And>i. i < length (operations w) \<Longrightarrow>
           op_state (operations w' ! i) = OpClosed \<Longrightarrow> op_state (operations w ! i) = OpClosed"
    and "unclosedOperations w' = unclosedOperations w"
  shows "registry_inv w'"
  using assms by (auto simp add: registry_inv_def split: option.splits)

lemma RpcClient_close_registry:
  "unclosedOperations (snd (RpcClient_close w)) =
     (if state w = Closed then unclosedOperations w else None)"
  by (simp add: close_defs split: option.splits)

lemma registry_close: "registry_inv w \<Longrightarrow> registry_inv (snd (RpcClient_close w))"
proof (cases "state w = Closed")
  case True
  assume "registry_inv w"
  with True show ?thesis by (simp add: RpcClient_close_Closed)
next
  case False
  then show ?thesis by (simp add: registry_inv_def RpcClient_close_registry)
qed

lemma registry_new:
  assumes "registry_inv w"
  shows "registry_inv (snd (OperationBase_new failure w))"
proof (cases "state w = Connected \<and> failure = None")
  case False
  then have "snd (OperationBase_new failure w) = w"
    by (auto simp add: OperationBase_new_def newStream_def split: option.splits)
  with assms show ?thesis by simp
next
  case True
  show ?thesis
  proof (cases "unclosedOperations w")
    case None
    with True show ?thesis
      by (simp add: registry_inv_def OperationBase_new_def newStream_def Let_def perform_def
          registerUnclosedOperation_def isConnected_def)
  next
    case (Some xs)
    with assms have d: "distinct xs"
      and b: "\<forall>i \<in> set xs. i < length (operations w) \<and> op_state (operations w ! i) \<noteq> OpClosed"
      by (simp_all add: registry_inv_def)
    from b have "length (operations w) \<notin> set xs" by auto
    with True Some d b show ?thesis
      by (auto simp add: registry_inv_def OperationBase_new_def newStream_def Let_def
          perform_def registerUnclosedOperation_def isConnected_def set_add_def nth_append)
  qed
qed

lemma OperationBase_close_others:
  "i \<noteq> this \<Longrightarrow> operations (snd (OperationBase_close this w)) ! i = operations w ! i"
  "i \<noteq> this \<Longrightarrow> count_list (immediates (snd (OperationBase_close this w))) (StreamClose i)
     = count_list (immediates w) (StreamClose i)"
  by (simp_all add: op_defs split: prod.splits option.splits)

lemma OperationBase_close_registry:
  "unclosedOperations (snd (OperationBase_close this w)) =
     (if this < length (operations w) \<and> op_state (operations w ! this) \<noteq> OpClosed
      then map_option (removeAll this) (unclosedOperations w)
      else unclosedOperations w)"
  by (cases "unclosedOperations w") (simp_all add: op_defs split: prod.splits option.splits)

lemma registry_operation_close:
  assumes "registry_inv w"
  shows "registry_inv (snd (OperationBase_close this w))"
proof (cases "this < length (operations w) \<and> op_state (operations w ! this) \<noteq> OpClosed")
  case False
  then have "snd (OperationBase_close this w) = w"
    by (auto simp add: OperationBase_close_def)
  with assms show ?thesis by simp
next
  case True
  show ?thesis
  proof (cases "unclosedOperations w")
    case None
    then show ?thesis by (simp add: registry_inv_def)
  next
    case (Some xs)
    with assms have d: "distinct xs"
      and b: "\<forall>i \<in> set xs. i < length (operations w) \<and> op_state (operations w ! i) \<noteq> OpClosed"
      by (simp_all add: registry_inv_def)
    from True Some have r: "unclosedOperations (snd (OperationBase_close this w))
        = Some (removeAll this xs)"
      by (simp add: OperationBase_close_registry)
    from d b show ?thesis
      by (auto simp add: registry_inv_def r distinct_removeAll OperationBase_close_others)
  qed
qed

lemma registry_callback: "registry_inv w \<Longrightarrow> registry_inv (callback t w)"
proof (cases t)
  case ClientClose
  assume "registry_inv w"
  with ClientClose show ?thesis by (simp add: registry_close)
qed (use registry_inv_same [of "callback t w" w] in \<open>simp_all add: perform_def\<close>)

lemma registry_runImmediate: "registry_inv w \<Longrightarrow> registry_inv (runImmediate w)"
proof (cases "immediates w")
  case Nil
  assume "registry_inv w"
  with Nil show ?thesis by (simp add: runImmediate_def)
next
  case (Cons t ts)
  assume "registry_inv w"
  then have "registry_inv (w\<lparr> immediates := ts \<rparr>)"
    using registry_inv_same [of "w\<lparr> immediates := ts \<rparr>" w] by simp
  with Cons show ?thesis by (simp add: runImmediate_def registry_callback)
qed

lemma registry_step:
  assumes r: "registry_inv w"
  shows "registry_inv (step accepted w e)"
proof (cases e)
  case CallClose
  with r show ?thesis by (simp add: registry_close)
next
  case RunImmediate
  with r show ?thesis by (simp add: registry_runImmediate)
next
  case (NewOperation failure)
  with r show ?thesis by (simp add: registry_new)
next
  case (CallOperationClose this)
  with r show ?thesis by (simp add: registry_operation_close)
next
  case (StreamBreaks this failure)
  show ?thesis
    unfolding StreamBreaks
    by (rule registry_inv_states [OF r]) (auto simp add: nth_list_update_any split: if_splits)
next
  case (CallActivate this)
  show ?thesis
    unfolding CallActivate
    by (rule registry_inv_states [OF r])
      (auto simp add: OperationBase_activate_def Let_def perform_def nth_list_update_any
        split: if_splits)
next
  case (ActivateResolves k)
  show ?thesis
    unfolding ActivateResolves
    by (rule registry_inv_states [OF r])
      (auto simp add: activateResolved_def Let_def nth_list_update_any split: if_splits)
next
  case (ActivateThrows k err)
  with r show ?thesis using registry_inv_same [of "activateThrew k err w" w] by simp
next
  case (ConnectionDisconnected c)
  with r show ?thesis using registry_inv_same [of "disconnected c w" w] by simp
next
  case CallConnect
  with r show ?thesis using registry_inv_same [of "RpcClient_connect w" w] by simp
next
  case TimerFires
  with r show ?thesis using registry_inv_same [of "timerFires w" w] by simp
next
  case (AwaitResolves v)
  with r show ?thesis using registry_inv_same [of "awaitResolved accepted v w" w] by simp
next
  case (AwaitThrows err)
  with r show ?thesis using registry_inv_same [of "awaitThrew err w" w] by simp
qed

lemma registry_run: "registry_inv (run accepted cfg evs)"
proof (induction evs rule: rev_induct)
  case Nil
  show ?case by (simp add: registry_inv_def init_def)
next
  case (snoc e evs)
  then show ?case by (simp add: registry_step)
qed

subsection \<open>\<open>RpcClient.close\<close>\<close>

lemma beforeCascade_frame [simp]:
  "state (beforeCascade w) = Closed"
  "unclosedOperations (beforeCascade w) = None"
  "operations (beforeCascade w) = operations w"
  "count_list (immediates (beforeCascade w)) (StreamClose i)
     = count_list (immediates w) (StreamClose i)"
  by (simp_all add: beforeCascade_def setImmediate_def)

lemma RpcClient_close_cascade:
  "state w \<noteq> Closed \<Longrightarrow> unclosedOperations w = Some xs \<Longrightarrow>
     snd (RpcClient_close w) = perform ConnectionClose (snd (closeEach xs (beforeCascade w)))"
  by (simp add: RpcClient_close_def beforeCascade_def Let_def setImmediate_def)

lemma RpcClient_close_trace:
  "state w \<noteq> Closed \<Longrightarrow> trace (snd (RpcClient_close w)) \<noteq> []
     \<and> last (trace (snd (RpcClient_close w))) = ConnectionClose"
  by (simp add: close_defs split: option.splits)

lemma closeEach_others:
  "i \<notin> set xs \<Longrightarrow> operations (snd (closeEach xs w)) ! i = operations w ! i"
  "i \<notin> set xs \<Longrightarrow> count_list (immediates (snd (closeEach xs w))) (StreamClose i)
     = count_list (immediates w) (StreamClose i)"
  by (induction xs arbitrary: w;
      simp add: closeEach_Cons OperationBase_close_others del: closeEach.simps(2))+

lemma OperationBase_close_count:
  assumes "this < length (operations w)" and "op_state (operations w ! this) \<noteq> OpClosed"
  shows "count_list (immediates (snd (OperationBase_close this w))) (StreamClose this)
     = Suc (count_list (immediates w) (StreamClose this))"
  using OperationBase_close_live(1) [OF assms] by simp

lemma closeEach_closes:
  assumes "distinct xs"
    and "\<forall>i \<in> set xs. i < length (operations w) \<and> op_state (operations w ! i) \<noteq> OpClosed"
  shows "\<forall>i \<in> set xs. op_state (operations (snd (closeEach xs w)) ! i) = OpClosed
     \<and> count_list (immediates (snd (closeEach xs w))) (StreamClose i)
         = Suc (count_list (immediates w) (StreamClose i))"
  using assms
proof (induction xs arbitrary: w)
  case Nil
  show ?case by simp
next
  case (Cons x xs)
  let ?w1 = "snd (OperationBase_close x w)"
  from Cons.prems have x: "x < length (operations w)" "op_state (operations w ! x) \<noteq> OpClosed"
    "x \<notin> set xs" "distinct xs"
    by simp_all
  have pre: "\<forall>i \<in> set xs. i < length (operations ?w1)
      \<and> op_state (operations ?w1 ! i) \<noteq> OpClosed"
  proof
    fix i
    assume i: "i \<in> set xs"
    with x(3) have "i \<noteq> x" by auto
    then have "operations ?w1 ! i = operations w ! i" by (rule OperationBase_close_others)
    with i Cons.prems(2) show "i < length (operations ?w1)
      \<and> op_state (operations ?w1 ! i) \<noteq> OpClosed"
      by simp
  qed
  note ih = Cons.IH [OF x(4) pre]
  show ?case
  proof
    fix i
    assume "i \<in> set (x # xs)"
    then consider "i = x" | "i \<in> set xs" "i \<noteq> x" using x(3) by auto
    then show "op_state (operations (snd (closeEach (x # xs) w)) ! i) = OpClosed
      \<and> count_list (immediates (snd (closeEach (x # xs) w))) (StreamClose i)
          = Suc (count_list (immediates w) (StreamClose i))"
    proof cases
      case 1
      with x show ?thesis
        by (simp add: closeEach_Cons closeEach_others OperationBase_close_live(3)
            OperationBase_close_count del: closeEach.simps(2))
    next
      case 2
      with ih show ?thesis
        by (simp add: closeEach_Cons OperationBase_close_others del: closeEach.simps(2))
    qed
  qed
qed

text \<open>
  Claim C4. \<open>RpcClient.close\<close> never throws and leaves the state \<open>Closed\<close>; called on a
  closed client, and so a second time, it changes nothing. On a client that is not closed
  it sets the state to \<open>Closed\<close> and detaches the registry before it closes the
  operations of the captured registry one after the other, each of them once: every
  registered operation was open, is closed afterwards, and got exactly one close of its
  stream scheduled. The close of the connection is the last call on the transport. At every
  point of the iteration a reentrant \<open>close()\<close> finds the state \<open>Closed\<close> and changes
  nothing.
\<close>

theorem close_cascade:
  assumes "w = run accepted cfg evs"
  shows "fst (RpcClient_close w) = Inr ()
    \<and> state (snd (RpcClient_close w)) = Closed
    \<and> RpcClient_close (snd (RpcClient_close w)) = (Inr (), snd (RpcClient_close w))
    \<and> (state w = Closed \<longrightarrow> RpcClient_close w = (Inr (), w))
    \<and> (state w \<noteq> Closed \<longrightarrow>
          unclosedOperations (snd (RpcClient_close w)) = None
          \<and> trace (snd (RpcClient_close w)) \<noteq> []
          \<and> last (trace (snd (RpcClient_close w))) = ConnectionClose)
    \<and> (\<forall>xs. state w \<noteq> Closed \<and> unclosedOperations w = Some xs \<longrightarrow>
          distinct xs
          \<and> state (beforeCascade w) = Closed
          \<and> unclosedOperations (beforeCascade w) = None
          \<and> snd (RpcClient_close w)
              = perform ConnectionClose (snd (closeEach xs (beforeCascade w)))
          \<and> (\<forall>i \<in> set xs.
                op_state (operations w ! i) \<noteq> OpClosed
                \<and> op_state (operations (snd (RpcClient_close w)) ! i) = OpClosed
                \<and> count_list (immediates (snd (RpcClient_close w))) (StreamClose i)
                    = Suc (count_list (immediates w) (StreamClose i)))
          \<and> (\<forall>k \<le> length xs.
                RpcClient_close (snd (closeEach (take k xs) (beforeCascade w)))
                  = (Inr (), snd (closeEach (take k xs) (beforeCascade w)))))"
proof -
  have a: "fst (RpcClient_close w) = Inr ()" by (rule RpcClient_close_returns)
  have b: "state (snd (RpcClient_close w)) = Closed" by simp
  then have c: "RpcClient_close (snd (RpcClient_close w)) = (Inr (), snd (RpcClient_close w))"
    by (rule RpcClient_close_Closed)
  have d: "state w = Closed \<longrightarrow> RpcClient_close w = (Inr (), w)"
    by (simp add: RpcClient_close_Closed)
  have e: "state w \<noteq> Closed \<longrightarrow>
          unclosedOperations (snd (RpcClient_close w)) = None
          \<and> trace (snd (RpcClient_close w)) \<noteq> []
          \<and> last (trace (snd (RpcClient_close w))) = ConnectionClose"
    using RpcClient_close_trace [of w] by (simp add: RpcClient_close_registry)
  have f: "distinct xs
          \<and> state (beforeCascade w) = Closed
          \<and> unclosedOperations (beforeCascade w) = None
          \<and> snd (RpcClient_close w)
              = perform ConnectionClose (snd (closeEach xs (beforeCascade w)))
          \<and> (\<forall>i \<in> set xs.
                op_state (operations w ! i) \<noteq> OpClosed
                \<and> op_state (operations (snd (RpcClient_close w)) ! i) = OpClosed
                \<and> count_list (immediates (snd (RpcClient_close w))) (StreamClose i)
                    = Suc (count_list (immediates w) (StreamClose i)))
          \<and> (\<forall>k \<le> length xs.
                RpcClient_close (snd (closeEach (take k xs) (beforeCascade w)))
                  = (Inr (), snd (closeEach (take k xs) (beforeCascade w))))"
    if notClosed: "state w \<noteq> Closed" and reg: "unclosedOperations w = Some xs" for xs
  proof -
    from assms reg have r: "distinct xs"
      "\<forall>i \<in> set xs. i < length (operations w) \<and> op_state (operations w ! i) \<noteq> OpClosed"
      using registry_run [of accepted cfg evs] by (simp_all add: registry_inv_def)
    from r(2) have r': "\<forall>i \<in> set xs. i < length (operations (beforeCascade w))
        \<and> op_state (operations (beforeCascade w) ! i) \<noteq> OpClosed"
      by simp
    have eq: "snd (RpcClient_close w)
        = perform ConnectionClose (snd (closeEach xs (beforeCascade w)))"
      using notClosed reg by (rule RpcClient_close_cascade)
    have "\<forall>i \<in> set xs.
        op_state (operations (snd (RpcClient_close w)) ! i) = OpClosed
        \<and> count_list (immediates (snd (RpcClient_close w))) (StreamClose i)
            = Suc (count_list (immediates w) (StreamClose i))"
      using closeEach_closes [OF r(1) r'] by (simp add: eq perform_def)
    moreover have "\<forall>k \<le> length xs.
        RpcClient_close (snd (closeEach (take k xs) (beforeCascade w)))
          = (Inr (), snd (closeEach (take k xs) (beforeCascade w)))"
      by (simp add: RpcClient_close_Closed)
    ultimately show ?thesis using r eq by simp
  qed
  from a b c d e f show ?thesis by blast
qed

theorem close_cascade_witness:
  "state (run 1 exampleConfig twoOperations) \<noteq> Closed
   \<and> unclosedOperations (run 1 exampleConfig twoOperations) = Some [0, 1]
   \<and> op_state (operations (run 1 exampleConfig twoOperations) ! 1) \<noteq> OpClosed
   \<and> op_state (operations (snd (RpcClient_close (run 1 exampleConfig twoOperations))) ! 1)
        = OpClosed
   \<and> count_list (immediates (snd (RpcClient_close (run 1 exampleConfig twoOperations))))
        (StreamClose 1) = 1
   \<and> last (trace (snd (RpcClient_close (run 1 exampleConfig twoOperations)))) = ConnectionClose
   \<and> RpcClient_close (snd (closeEach (take 1 [0, 1])
          (beforeCascade (run 1 exampleConfig twoOperations))))
        = (Inr (), snd (closeEach (take 1 [0, 1])
            (beforeCascade (run 1 exampleConfig twoOperations))))"
proof -
  have h1: "state (run 1 exampleConfig twoOperations) \<noteq> Closed"
    by code_simp
  have h2: "unclosedOperations (run 1 exampleConfig twoOperations) = Some [0, 1]"
    by code_simp
  have h3: "immediates (run 1 exampleConfig twoOperations) = []"
    by code_simp
  note t = close_cascade [OF refl, of 1 exampleConfig twoOperations]
  from t h1 have l: "last (trace (snd (RpcClient_close (run 1 exampleConfig twoOperations))))
      = ConnectionClose"
    by blast
  from t h1 h2 have b: "\<forall>i \<in> set [0, 1].
      op_state (operations (run 1 exampleConfig twoOperations) ! i) \<noteq> OpClosed
      \<and> op_state (operations (snd (RpcClient_close (run 1 exampleConfig twoOperations))) ! i)
          = OpClosed
      \<and> count_list (immediates (snd (RpcClient_close (run 1 exampleConfig twoOperations))))
          (StreamClose i)
          = Suc (count_list (immediates (run 1 exampleConfig twoOperations)) (StreamClose i))"
    by blast
  from t h1 h2 have c: "\<forall>k \<le> length [0::nat, 1].
      RpcClient_close (snd (closeEach (take k [0, 1])
          (beforeCascade (run 1 exampleConfig twoOperations))))
        = (Inr (), snd (closeEach (take k [0, 1])
            (beforeCascade (run 1 exampleConfig twoOperations))))"
    by blast
  have k: "(1::nat) \<le> length [0::nat, 1]" by simp
  have i: "(1::nat) \<in> set [0, 1]" by simp
  from b i have b1: "op_state (operations (run 1 exampleConfig twoOperations) ! 1) \<noteq> OpClosed
      \<and> op_state (operations (snd (RpcClient_close (run 1 exampleConfig twoOperations))) ! 1)
          = OpClosed
      \<and> count_list (immediates (snd (RpcClient_close (run 1 exampleConfig twoOperations))))
          (StreamClose 1)
          = Suc (count_list (immediates (run 1 exampleConfig twoOperations)) (StreamClose 1))"
    by blast
  from b1 h3 have n: "count_list (immediates (snd (RpcClient_close
      (run 1 exampleConfig twoOperations)))) (StreamClose 1) = 1"
    by simp
  from c k have c1: "RpcClient_close (snd (closeEach (take 1 [0, 1])
          (beforeCascade (run 1 exampleConfig twoOperations))))
        = (Inr (), snd (closeEach (take 1 [0, 1])
            (beforeCascade (run 1 exampleConfig twoOperations))))"
    by blast
  from h1 h2 l b1 n c1 show ?thesis by blast
qed

section \<open>Where the code departs from the claims\<close>

text \<open>
  Claim C2. The state of a client is meant to advance only. The \<open>catch\<close> block of
  \<open>connect()\<close> assigns \<open>Finished\<close> without looking at the state: when the connect timer
  has fired and the scheduled close has run, an exception of the pending \<open>await\<close> moves
  the state from \<open>Closed\<close> back to \<open>Finished\<close>.
\<close>

theorem state_regresses_after_close:
  "state (run accepted cfg [CallConnect, TimerFires, RunImmediate]) = Closed
   \<and> state (run accepted cfg [CallConnect, TimerFires, RunImmediate, AwaitThrows err])
       = Finished
   \<and> rank (state (run accepted cfg [CallConnect, TimerFires, RunImmediate, AwaitThrows err]))
       < rank (state (run accepted cfg [CallConnect, TimerFires, RunImmediate]))"
  by (simp add: run_def init_def RpcClient_connect_def perform_def timerFires_def
      onTimeout_def reject_def setImmediate_def settle_def runImmediate_def awaitThrew_def
      onCatch_def)

text \<open>
  Claim C3. The first outcome of the handshake is meant to be the only one that acts.
  After a disconnection during the handshake has rejected the promise and the client is
  closed, a late exception of the pending \<open>await\<close> still acts: the state changes again,
  another close is scheduled, and the connection is closed a second time.
\<close>

theorem late_exception_acts_again:
  "promises (run accepted cfg [CallConnect, ConnectionDisconnected 1, RunImmediate]) =
     [Rejected (createRpcError NetworkError
        ''RpcClient.connect() failed - connection closed'' None)]
   \<and> state (run accepted cfg [CallConnect, ConnectionDisconnected 1, RunImmediate]) = Closed
   \<and> immediates (run accepted cfg [CallConnect, ConnectionDisconnected 1, RunImmediate]) = []
   \<and> state (run accepted cfg
        [CallConnect, ConnectionDisconnected 1, RunImmediate, AwaitThrows err]) = Finished
   \<and> immediates (run accepted cfg
        [CallConnect, ConnectionDisconnected 1, RunImmediate, AwaitThrows err]) = [ClientClose]
   \<and> trace (run accepted cfg
        [CallConnect, ConnectionDisconnected 1, RunImmediate, AwaitThrows err, RunImmediate])
       = [ConnectionConnect, ConnectionClose, ConnectionClose]"
  by (simp add: run_def init_def RpcClient_connect_def perform_def disconnected_def
      reject_def setImmediate_def settle_def runImmediate_def awaitThrew_def
      onCatch_def RpcClient_close_def)

text \<open>
  Claim C9. Every error is meant to carry a description that is not empty. The error
  that rejects the promise of a failed \<open>activate()\<close> has the empty description.
\<close>

theorem failed_activate_empty_description:
  "activatePromises (run 1 exampleConfig
      (handshake @ [NewOperation None, CallActivate 0, ActivateThrows 0 (CrtErrorCode 1)]))
     = [Rejected \<lparr> type = InternalError, description = [],
          internalError = Some (CrtErrorCode 1) \<rparr>]
   \<and> activateThrew k err (w\<lparr> activatePromises := [Pending], activations := [0] \<rparr>)
       = w\<lparr> activatePromises :=
             (if k = 0 then [Rejected \<lparr> type = InternalError, description = [],
                internalError = Some err \<rparr>] else [Pending]),
            activations := [0] \<rparr>"
proof -
  have "activatePromises (run 1 exampleConfig
      (handshake @ [NewOperation None, CallActivate 0, ActivateThrows 0 (CrtErrorCode 1)]))
     = [Rejected \<lparr> type = InternalError, description = [],
          internalError = Some (CrtErrorCode 1) \<rparr>]"
    by code_simp
  then show ?thesis
    by (simp add: activateThrew_def settle_def createRpcError_def)
qed

end
